theory Spec2Isabelle
  imports Complex_Main "HOL-Library.Log_Nat"
begin

section \<open>The Dolmenwood system module: data model and sheet logic\<close>

text \<open>
  The module is JavaScript running inside a virtual-tabletop host. This theory embeds the
  parts of it that compute: the Adventurer data model (\<open>computeModifier\<close>,
  \<open>prepareDerivedData\<close>), the actor sheet (\<open>DolmenSheet\<close>: inventory grouping, the
  experience dialog, the extra-skill dialog, unit conversion, the attack workflow, the
  quantity buttons) and the item sheet (the quality checkboxes).

  Conventions of the embedding.
  \<^item> A JavaScript number that the schema declares \<open>integer: true\<close>, or that \<open>parseInt\<close>
    returns, is an \<open>int\<close>; integer addition, subtraction and multiplication on such
    numbers are exact as long as the values stay below \<open>2^53\<close> in magnitude, which is
    assumed throughout. \<open>NaN\<close> is \<open>None\<close>.
  \<^item> Arithmetic that leaves the integers (\<open>bonus / 100\<close>, \<open>totalInches * 2.54\<close>,
    \<open>lbs * 0.453592\<close>) is IEEE 754 binary64 arithmetic. A finite double is a rational
    number, and each operation is the exact operation followed by rounding to the nearest
    double, ties to even (\<open>fl\<close> below).
  \<^item> A string is a list of characters; the strings that occur are ASCII.
  \<^item> The host's localisation functions \<open>game.i18n.localize\<close> and \<open>game.i18n.format\<close>
    and the configuration object \<open>CONFIG.DOLMENWOOD\<close> are not part of the module: they
    are parameters of the functions that call them.
  \<^item> A method name of the source that starts with an underscore is written without it.
\<close>

subsection \<open>Numbers and strings of the host language\<close>

text \<open>\<open>x || 0\<close> and \<open>x || 1\<close> on a number: the right operand replaces a falsy left operand
  (\<open>0\<close> or \<open>NaN\<close>).\<close>

definition js_or :: "int option \<Rightarrow> int \<Rightarrow> int" where
  "js_or x d = (case x of None \<Rightarrow> d | Some n \<Rightarrow> if n = 0 then d else n)"

text \<open>Conversion of an integer-valued number to a string (template literals and string
  concatenation): decimal digits, most significant first, with a minus sign for a
  negative number. (The host prints integers of magnitude \<open>10^21\<close> and more in exponent
  notation; such values do not occur.)\<close>

definition digit_char :: "nat \<Rightarrow> char" where
  "digit_char d = ''0123456789'' ! d"

fun show_nat :: "nat \<Rightarrow> string" where
  "show_nat n = (if n < 10 then [digit_char n] else show_nat (n div 10) @ [digit_char (n mod 10)])"

declare show_nat.simps [simp del]

definition js_toString :: "int \<Rightarrow> string" where
  "js_toString n = (if n < 0 then ''-'' @ show_nat (nat (- n)) else show_nat (nat n))"

subsection \<open>The Adventurer data model\<close>

record ability =
  ability_score :: int
  ability_mod :: int

record abilities =
  strength :: ability
  intelligence :: ability
  wisdom :: ability
  dexterity :: ability
  constitution :: ability
  charisma :: ability

record skill =
  skill_id :: string
  skill_target :: int

record adventurer =
  attack :: int
  abilities :: abilities
  kindred :: string
  creatureType :: string
  xp_value :: int
  xp_modifier :: int
  extraSkills :: "skill list"

text \<open>\<open>AdventurerDataModel.computeModifier\<close>: a chain of early returns.\<close>

definition computeModifier :: "int \<Rightarrow> int" where
  "computeModifier score =
     (if score \<le> 3 then - 3
      else if score \<le> 5 then - 2
      else if score \<le> 8 then - 1
      else if score \<le> 12 then 0
      else if score \<le> 15 then 1
      else if score \<le> 17 then 2
      else 3)"

text \<open>\<open>AdventurerDataModel.getCreatureTypeForKindred\<close>.\<close>

definition getCreatureTypeForKindred :: "string \<Rightarrow> string" where
  "getCreatureTypeForKindred k =
     (if k \<in> set [''grimalkin'', ''elf''] then ''fairy''
      else if k \<in> set [''woodgrue''] then ''demi-fey''
      else ''mortal'')"

text \<open>\<open>prepareDerivedData\<close>: the loop over \<open>Object.values(this.abilities)\<close> visits the six
  abilities of the schema and overwrites the modifier of each; then the creature type is
  derived from the kindred.\<close>

definition derive_mod :: "ability \<Rightarrow> ability" where
  "derive_mod a = a\<lparr>ability_mod := computeModifier (ability_score a)\<rparr>"

definition for_each_ability :: "(ability \<Rightarrow> ability) \<Rightarrow> abilities \<Rightarrow> abilities" where
  "for_each_ability f ab =
     \<lparr>strength = f (strength ab), intelligence = f (intelligence ab), wisdom = f (wisdom ab),
      dexterity = f (dexterity ab), constitution = f (constitution ab),
      charisma = f (charisma ab)\<rparr>"

definition prepareDerivedData :: "adventurer \<Rightarrow> adventurer" where
  "prepareDerivedData s =
     s\<lparr>abilities := for_each_ability derive_mod (abilities s),
       creatureType := getCreatureTypeForKindred (kindred s)\<rparr>"

text \<open>The six accessors of the abilities, in the order of the schema.\<close>

definition ability_fields :: "(abilities \<Rightarrow> ability) list" where
  "ability_fields = [strength, intelligence, wisdom, dexterity, constitution, charisma]"

subsection \<open>Attack modifiers and the attack formula\<close>

record attack_modifiers =
  attackMod :: int
  abilityMod :: int
  totalMod :: int

text \<open>\<open>_getAttackModifiers\<close>: the flat attack bonus (\<open>system.attack || 0\<close>) plus the strength
  modifier when the attack type is the string \<open>melee\<close>, the dexterity modifier for any
  other attack type.\<close>

definition getAttackModifiers :: "adventurer \<Rightarrow> string \<Rightarrow> attack_modifiers" where
  "getAttackModifiers system attackType =
     (let attackMod' = js_or (Some (attack system)) 0;
          abilityMod' = (if attackType = ''melee''
                         then ability_mod (strength (abilities system))
                         else ability_mod (dexterity (abilities system)))
      in \<lparr>attackMod = attackMod', abilityMod = abilityMod', totalMod = attackMod' + abilityMod'\<rparr>)"

text \<open>\<open>_buildAttackFormula\<close>: a template literal on either side of the conditional.\<close>

definition buildAttackFormula :: "int \<Rightarrow> string" where
  "buildAttackFormula t =
     (if t \<ge> 0 then ''1d20 + '' @ js_toString t else ''1d20 - '' @ js_toString \<bar>t\<bar>)"

subsection \<open>Arrays of the host language\<close>

text \<open>\<open>Array.prototype.includes\<close>, \<open>indexOf\<close> (the position of the first occurrence, or
  \<open>-1\<close>), \<open>push\<close> and \<open>splice(start, deleteCount)\<close> without inserted elements. A negative
  \<open>start\<close> of \<open>splice\<close> counts from the end of the array and a \<open>start\<close> past the end is the
  length, as the language defines it.\<close>

definition js_includes :: "'a list \<Rightarrow> 'a \<Rightarrow> bool" where
  "js_includes xs x = (x \<in> set xs)"

fun indexOf :: "'a list \<Rightarrow> 'a \<Rightarrow> int" where
  "indexOf [] x = - 1"
| "indexOf (y # ys) x =
     (if y = x then 0 else (let i = indexOf ys x in if i < 0 then - 1 else i + 1))"

definition js_push :: "'a list \<Rightarrow> 'a \<Rightarrow> 'a list" where
  "js_push xs x = xs @ [x]"

definition js_splice :: "'a list \<Rightarrow> int \<Rightarrow> nat \<Rightarrow> 'a list" where
  "js_splice xs start deleteCount =
     (let len = int (length xs);
          s = nat (if start < 0 then max (len + start) 0 else min start len)
      in take s xs @ drop (s + deleteCount) xs)"

subsection \<open>Items\<close>

text \<open>The item types of the system: one data model each (\<open>Item\<close> is the generic one).\<close>

datatype item_type = Weapon | Armor | Item | Treasure | Foraged | Spell

definition type_name :: "item_type \<Rightarrow> string" where
  "type_name t =
     (case t of Weapon \<Rightarrow> ''Weapon'' | Armor \<Rightarrow> ''Armor'' | Item \<Rightarrow> ''Item''
      | Treasure \<Rightarrow> ''Treasure'' | Foraged \<Rightarrow> ''Foraged'' | Spell \<Rightarrow> ''Spell'')"

text \<open>The fields of \<open>item.system\<close> that the sheets read or write. \<open>qualities\<close> is defined
  for a weapon only (\<open>None\<close> is \<open>undefined\<close>); \<open>quantity\<close> is an integer with minimum 1 in
  the schema.\<close>

record item_system =
  equipped :: bool
  quantity :: int
  item_notes :: string
  qualities :: "string list option"
  damage :: string

record item =
  item_id :: string
  name :: string
  img :: string
  type :: item_type
  system :: item_system

text \<open>The embedded item collection of an actor, in insertion order. \<open>items.get(id)\<close>
  looks an item up by its id; \<open>item.update\<close> replaces the fields of that one document.\<close>

definition items_get :: "item list \<Rightarrow> string \<Rightarrow> item option" where
  "items_get its i = find (\<lambda>it. item_id it = i) its"

fun item_update :: "item list \<Rightarrow> string \<Rightarrow> (item \<Rightarrow> item) \<Rightarrow> item list" where
  "item_update [] i f = []"
| "item_update (it # its) i f =
     (if item_id it = i then f it # its else it # item_update its i f)"

definition set_quantity :: "int \<Rightarrow> item \<Rightarrow> item" where
  "set_quantity q it = it\<lparr>system := (system it)\<lparr>quantity := q\<rparr>\<rparr>"

definition set_qualities :: "string list \<Rightarrow> item \<Rightarrow> item" where
  "set_qualities qs it = it\<lparr>system := (system it)\<lparr>qualities := Some qs\<rparr>\<rparr>"

subsection \<open>The item sheet: quality checkboxes\<close>

text \<open>The \<open>change\<close> listener of a quality checkbox in \<open>DolmenItemSheet._onRender\<close>:
  \<open>quality\<close> is the checkbox's tag, \<open>checked\<close> its new state. The listener copies the
  current list (\<open>[]\<close> when there is none), changes the copy and persists it.\<close>

definition onQualityChange :: "item \<Rightarrow> string \<Rightarrow> bool \<Rightarrow> item" where
  "onQualityChange it quality checked =
     (let currentQualities = (case qualities (system it) of None \<Rightarrow> [] | Some qs \<Rightarrow> qs);
          currentQualities' =
            (if checked \<and> \<not> js_includes currentQualities quality
               then js_push currentQualities quality
             else if \<not> checked \<and> js_includes currentQualities quality
               then (let index = indexOf currentQualities quality
                     in js_splice currentQualities index 1)
             else currentQualities)
      in set_qualities currentQualities' it)"

subsection \<open>The actor sheet: quantity buttons\<close>

text \<open>\<open>_onIncreaseQty\<close> and \<open>_onDecreaseQty\<close>. The argument is
  \<open>target.dataset.itemId\<close>: \<open>None\<close> when the attribute is missing; the empty string is
  falsy as well. The result is the item collection after the handler.\<close>

definition onIncreaseQty :: "item list \<Rightarrow> string option \<Rightarrow> item list" where
  "onIncreaseQty its itemId =
     (case itemId of
        None \<Rightarrow> its
      | Some i \<Rightarrow>
          if i = [] then its
          else (case items_get its i of
                  None \<Rightarrow> its
                | Some it \<Rightarrow>
                    (let currentQty = js_or (Some (quantity (system it))) 1
                     in item_update its i (set_quantity (currentQty + 1)))))"

definition onDecreaseQty :: "item list \<Rightarrow> string option \<Rightarrow> item list" where
  "onDecreaseQty its itemId =
     (case itemId of
        None \<Rightarrow> its
      | Some i \<Rightarrow>
          if i = [] then its
          else (case items_get its i of
                  None \<Rightarrow> its
                | Some it \<Rightarrow>
                    (let currentQty = js_or (Some (quantity (system it))) 1
                     in if currentQty > 1
                        then item_update its i (set_quantity (currentQty - 1))
                        else its)))"

subsection \<open>The actor sheet: inventory groups\<close>

text \<open>\<open>String.prototype.toLowerCase\<close> on ASCII letters.\<close>

definition js_toLowerCase :: "string \<Rightarrow> string" where
  "js_toLowerCase s =
     map (\<lambda>c. let n = (of_char c :: nat) in if 65 \<le> n \<and> n \<le> 90 then char_of (n + 32) else c) s"

text \<open>One group of the inventory display. The items of a group are the prepared item
  data that \<open>_prepareItemData\<close> builds: an object with the id, name, image, type and system
  data of the item and further display fields, that is, any extension of the record
  \<open>item\<close>.\<close>

record 'i type_group =
  group_type :: item_type
  typeLower :: string
  label :: string
  group_items :: "'i list"
  isWeapon :: bool
  isArmor :: bool
  isItem :: bool
  isTreasure :: bool
  isForaged :: bool

definition typeOrder :: "item_type list" where
  "typeOrder = [Weapon, Armor, Item, Treasure, Foraged]"

text \<open>The group that the loop of \<open>_groupItemsByType\<close> creates at the first item of a
  type; \<open>localize\<close> is \<open>game.i18n.localize\<close>.\<close>

definition new_group :: "(string \<Rightarrow> string) \<Rightarrow> item_type \<Rightarrow> 'i type_group" where
  "new_group localize t =
     \<lparr>group_type = t,
      typeLower = js_toLowerCase (type_name t),
      label = localize (''TYPES.Item.'' @ type_name t),
      group_items = [],
      isWeapon = (t = Weapon),
      isArmor = (t = Armor),
      isItem = (t = Item),
      isTreasure = (t = Treasure),
      isForaged = (t = Foraged)\<rparr>"

text \<open>The loop over the items: \<open>groups\<close> is the object that maps a type to its group.\<close>

fun group_loop ::
  "(string \<Rightarrow> string) \<Rightarrow> 'a item_scheme list \<Rightarrow> (item_type \<rightharpoonup> 'a item_scheme type_group)
    \<Rightarrow> (item_type \<rightharpoonup> 'a item_scheme type_group)" where
  "group_loop localize [] groups = groups"
| "group_loop localize (it # its) groups =
     (let g = (case groups (type it) of None \<Rightarrow> new_group localize (type it) | Some g \<Rightarrow> g)
      in group_loop localize its
           (groups(type it \<mapsto> g\<lparr>group_items := js_push (group_items g) it\<rparr>)))"

definition groupItemsByType ::
  "(string \<Rightarrow> string) \<Rightarrow> 'a item_scheme list \<Rightarrow> 'a item_scheme type_group list" where
  "groupItemsByType localize its =
     (let groups = group_loop localize its Map.empty
      in map (\<lambda>t. the (groups t)) (filter (\<lambda>t. groups t \<noteq> None) typeOrder))"

subsection \<open>The actor sheet: state\<close>

text \<open>What a handler of the sheet can read and change: the actor (its embedded items and
  its system data), the warnings shown by \<open>ui.notifications.warn\<close>, the messages posted
  with \<open>ChatMessage.create\<close>, the one context menu of the sheet and the open dialog.

  A chat message of the attack workflow carries the weapon, the attack type, the attack
  section (formula, result class and result label; absent for a damage-only roll) and the
  damage section (the damage formula; absent for an attack-only roll). The rendering of
  the evaluated rolls is the host's.\<close>

record attack_section =
  atk_formula :: string
  resultClass :: string
  resultLabel :: string

record chat_message =
  msg_weapon :: item
  msg_attackType :: string
  msg_attack :: "attack_section option"
  msg_damage :: "string option"

datatype context_menu = WeaponMenu "item list" string

datatype dialog = AddSkillDialog "string list"

record sheet_state =
  actor_items :: "item list"
  actor_system :: adventurer
  warnings :: "string list"
  chat :: "chat_message list"
  menu :: "context_menu option"
  open_dialog :: "dialog option"

subsection \<open>The actor sheet: extra skills\<close>

text \<open>\<open>_openAddSkillDialog\<close>. \<open>cfg_extraSkills\<close> and \<open>cfg_maxExtraSkills\<close> are
  \<open>CONFIG.DOLMENWOOD.extraSkills\<close> and \<open>CONFIG.DOLMENWOOD.maxExtraSkills\<close>. The options
  of the dialog's select element are the available skill ids.\<close>

definition openAddSkillDialog ::
  "(string \<Rightarrow> string) \<Rightarrow> string list \<Rightarrow> int \<Rightarrow> sheet_state \<Rightarrow> sheet_state" where
  "openAddSkillDialog localize cfg_extraSkills cfg_maxExtraSkills st =
     (let currentSkills = extraSkills (actor_system st);
          currentSkillIds = map skill_id currentSkills;
          availableSkills = filter (\<lambda>i. \<not> js_includes currentSkillIds i) cfg_extraSkills
      in if length availableSkills = 0 \<or> int (length currentSkills) \<ge> cfg_maxExtraSkills
         then st\<lparr>warnings := warnings st @
                  [if localize ''DOLMEN.NoSkillsAvailable'' = []
                   then ''No more skills available to add.''
                   else localize ''DOLMEN.NoSkillsAvailable'']\<rparr>
         else st\<lparr>open_dialog := Some (AddSkillDialog availableSkills)\<rparr>)"

text \<open>\<open>_addSkill\<close> (the dialog's confirm button) and \<open>_removeSkill\<close>.\<close>

definition addSkill :: "sheet_state \<Rightarrow> string \<Rightarrow> sheet_state" where
  "addSkill st skillId =
     st\<lparr>actor_system := (actor_system st)
          \<lparr>extraSkills := js_push (extraSkills (actor_system st))
                             \<lparr>skill_id = skillId, skill_target = 6\<rparr>\<rparr>\<rparr>"

definition removeSkill :: "sheet_state \<Rightarrow> int \<Rightarrow> sheet_state" where
  "removeSkill st index =
     st\<lparr>actor_system := (actor_system st)
          \<lparr>extraSkills := js_splice (extraSkills (actor_system st)) index 1\<rparr>\<rparr>"

subsection \<open>The actor sheet: attack workflow\<close>

text \<open>\<open>_getEquippedWeaponsByQuality\<close>; \<open>qualities?.includes(quality)\<close> is falsy when
  there are no qualities.\<close>

definition getEquippedWeaponsByQuality :: "item list \<Rightarrow> string \<Rightarrow> item list" where
  "getEquippedWeaponsByQuality its quality =
     filter (\<lambda>it. type it = Weapon \<and> equipped (system it) \<and>
                  (case qualities (system it) of None \<Rightarrow> False | Some qs \<Rightarrow> js_includes qs quality))
       its"

text \<open>\<open>_getAttackResultState\<close>: \<open>d20\<close> is the result of the first die of the evaluated
  attack roll.\<close>

definition getAttackResultState :: "(string \<Rightarrow> string) \<Rightarrow> nat \<Rightarrow> string \<times> string" where
  "getAttackResultState localize d20 =
     (if d20 = 20
        then (''critical'',
              ''<span class=\"roll-label\">'' @ localize ''DOLMEN.Attack.Critical'' @ ''</span>'')
      else if d20 = 1
        then (''fumble'',
              ''<span class=\"roll-label\">'' @ localize ''DOLMEN.Attack.Fumble'' @ ''</span>'')
      else ([], []))"

text \<open>\<open>_performAttackRoll\<close>: the attack roll unless \<open>damageOnly\<close>, the damage roll unless
  \<open>attackOnly\<close>, then one chat message with both. The dice are the host's: the result
  \<open>d20\<close> of the attack die is an argument.\<close>

definition performAttackRoll ::
  "(string \<Rightarrow> string) \<Rightarrow> nat \<Rightarrow> sheet_state \<Rightarrow> item \<Rightarrow> string \<Rightarrow> bool \<Rightarrow> bool \<Rightarrow> sheet_state" where
  "performAttackRoll localize d20 st weapon attackType attackOnly damageOnly =
     (let attackData =
            (if \<not> damageOnly
             then (let formula = buildAttackFormula
                                   (totalMod (getAttackModifiers (actor_system st) attackType));
                       (rc, rl) = getAttackResultState localize d20
                   in Some \<lparr>atk_formula = formula, resultClass = rc, resultLabel = rl\<rparr>)
             else None);
          damageData = (if \<not> attackOnly then Some (damage (system weapon)) else None)
      in st\<lparr>chat := chat st @
               [\<lparr>msg_weapon = weapon,
                 msg_attackType = localize (''DOLMEN.Item.Quality.'' @ attackType),
                 msg_attack = attackData, msg_damage = damageData\<rparr>]\<rparr>)"

definition rollAttack ::
  "(string \<Rightarrow> string) \<Rightarrow> nat \<Rightarrow> sheet_state \<Rightarrow> item \<Rightarrow> string \<Rightarrow> sheet_state" where
  "rollAttack localize d20 st weapon attackType =
     performAttackRoll localize d20 st weapon attackType False False"

text \<open>\<open>_openWeaponContextMenu\<close>: \<open>_createContextMenu\<close> removes an existing menu and
  shows the new one, which lists the weapons.\<close>

definition openWeaponContextMenu :: "sheet_state \<Rightarrow> item list \<Rightarrow> string \<Rightarrow> sheet_state" where
  "openWeaponContextMenu st weapons attackType = st\<lparr>menu := Some (WeaponMenu weapons attackType)\<rparr>"

text \<open>\<open>_onAttackRoll\<close>, the left click on the melee or missile icon. \<open>format\<close> is
  \<open>game.i18n.format\<close> applied to a key and the value of the placeholder \<open>type\<close>.\<close>

definition onAttackRoll ::
  "(string \<Rightarrow> string) \<Rightarrow> (string \<Rightarrow> string \<Rightarrow> string) \<Rightarrow> nat \<Rightarrow> sheet_state \<Rightarrow> string
    \<Rightarrow> sheet_state" where
  "onAttackRoll localize format d20 st attackType =
     (let weapons = getEquippedWeaponsByQuality (actor_items st) attackType
      in if length weapons = 0
         then (let typeName = localize (''DOLMEN.Item.Quality.'' @ attackType)
               in st\<lparr>warnings := warnings st @ [format ''DOLMEN.Attack.NoWeapon'' typeName]\<rparr>)
         else if length weapons = 1
         then rollAttack localize d20 st (weapons ! 0) attackType
         else openWeaponContextMenu st weapons attackType)"

subsection \<open>Double-precision arithmetic\<close>

text \<open>
  A finite binary64 number is a rational \<open>m * 2^e\<close> with an integer \<open>m\<close> of at most
  53 bits. \<open>fl x\<close> is the number of this form nearest to \<open>x\<close>, the one with even \<open>m\<close> when
  two are equally near: with \<open>2^e \<le> \<bar>x\<bar> < 2^(e+1)\<close> the candidates are the multiples of
  \<open>2^(e-52)\<close>. The exponent is not bounded here; \<open>fl\<close> is the rounding of binary64 for
  every \<open>x\<close> whose magnitude is at least \<open>2^-1022\<close> and rounds to less than \<open>2^1024\<close>, and
  all values below are in that range.
\<close>

definition ilog2 :: "rat \<Rightarrow> int" where
  "ilog2 x =
     (let (p, q) = quotient_of x; k = bitlen p - bitlen q
      in if 2 powi k \<le> x then k else k - 1)"

definition round_even :: "rat \<Rightarrow> int" where
  "round_even y =
     (let f = \<lfloor>y\<rfloor>; d = y - of_int f
      in if d < 1 / 2 then f else if 1 / 2 < d then f + 1 else if even f then f else f + 1)"

definition fl :: "rat \<Rightarrow> rat" where
  "fl x =
     (if x = 0 then 0
      else (let u = 2 powi (ilog2 \<bar>x\<bar> - 52) in of_int (round_even (x / u)) * u))"

text \<open>The arithmetic operators on numbers, \<open>Math.floor\<close> and \<open>Math.round\<close> (the nearest
  integer, a tie going up).\<close>

definition js_add :: "rat \<Rightarrow> rat \<Rightarrow> rat" where
  "js_add a b = fl (a + b)"

definition js_mul :: "rat \<Rightarrow> rat \<Rightarrow> rat" where
  "js_mul a b = fl (a * b)"

definition js_div :: "rat \<Rightarrow> rat \<Rightarrow> rat" where
  "js_div a b = fl (a / b)"

definition Math_floor :: "rat \<Rightarrow> int" where
  "Math_floor x = \<lfloor>x\<rfloor>"

definition Math_round :: "rat \<Rightarrow> int" where
  "Math_round x = \<lfloor>x + 1 / 2\<rfloor>"

text \<open>\<open>a % b\<close> on integers: the remainder has the sign of the dividend.\<close>

definition js_rem :: "int \<Rightarrow> int \<Rightarrow> int" where
  "js_rem a b = sgn a * (\<bar>a\<bar> mod \<bar>b\<bar>)"

text \<open>The numeric literals \<open>2.54\<close> and \<open>0.453592\<close> denote the nearest doubles.\<close>

definition lit_2_54 :: rat where
  "lit_2_54 = fl (254 / 100)"

definition lit_0_453592 :: rat where
  "lit_0_453592 = fl (453592 / 1000000)"

subsection \<open>Strings: \<open>indexOf\<close>, \<open>substring\<close>, \<open>parseInt\<close>\<close>

definition apostrophe :: char where
  "apostrophe = CHR 0x27"

definition dquote :: char where
  "dquote = CHR 0x22"

text \<open>\<open>s.substring(a, b)\<close>: both indices are clamped to the string and swapped when
  \<open>a > b\<close>.\<close>

definition js_substring :: "string \<Rightarrow> int \<Rightarrow> int \<Rightarrow> string" where
  "js_substring s a b =
     (let len = int (length s);
          a' = max 0 (min a len);
          b' = max 0 (min b len);
          lo = min a' b';
          hi = max a' b'
      in take (nat (hi - lo)) (drop (nat lo) s))"

text \<open>\<open>parseInt(s)\<close> without a radix: leading white space is skipped, then an optional
  sign, then the prefix \<open>0x\<close> or \<open>0X\<close> selects radix 16, otherwise the radix is 10; the
  value is that of the longest prefix of digits, and \<open>NaN\<close> when there is no digit.\<close>

definition is_space :: "char \<Rightarrow> bool" where
  "is_space c \<longleftrightarrow> c \<in> set [CHR 0x20, CHR 0x09, CHR 0x0A, CHR 0x0B, CHR 0x0C, CHR 0x0D]"

definition digit_of :: "char \<Rightarrow> nat option" where
  "digit_of c = (let i = indexOf ''0123456789'' c in if i < 0 then None else Some (nat i))"

definition hex_digit_of :: "char \<Rightarrow> nat option" where
  "hex_digit_of c =
     (let i = indexOf ''0123456789abcdef'' c; j = indexOf ''0123456789ABCDEF'' c
      in if 0 \<le> i then Some (nat i) else if 0 \<le> j then Some (nat j) else None)"

fun take_digits :: "(char \<Rightarrow> nat option) \<Rightarrow> string \<Rightarrow> nat list" where
  "take_digits d [] = []"
| "take_digits d (c # cs) = (case d c of None \<Rightarrow> [] | Some v \<Rightarrow> v # take_digits d cs)"

definition digits_value :: "nat \<Rightarrow> nat list \<Rightarrow> nat" where
  "digits_value radix ds = foldl (\<lambda>acc v. acc * radix + v) 0 ds"

definition parseInt :: "string \<Rightarrow> int option" where
  "parseInt s =
     (let s1 = dropWhile is_space s;
          (sign, s2) = (case s1 of
                          [] \<Rightarrow> (1, s1)
                        | c # cs \<Rightarrow> if c = CHR ''-'' then (- 1, cs)
                                    else if c = CHR ''+'' then (1, cs) else (1, s1));
          (radix, digit, s3) = (case s2 of
                          c0 # c1 # cs \<Rightarrow>
                            if c0 = CHR ''0'' \<and> (c1 = CHR ''x'' \<or> c1 = CHR ''X'')
                            then (16, hex_digit_of, cs) else (10, digit_of, s2)
                        | _ \<Rightarrow> (10, digit_of, s2));
          z = take_digits digit s3
      in if z = [] then None else Some (sign * int (digits_value radix z)))"

subsection \<open>The actor sheet: unit conversion\<close>

text \<open>The listeners of \<open>_setupUnitConversionListeners\<close>. Each takes the text of the
  edited field and returns the text that it stores in the linked field.\<close>

definition updateCmFromFeetInches :: "string \<Rightarrow> string" where
  "updateCmFromFeetInches v =
     (let fIndex = indexOf v apostrophe;
          iIndex = indexOf v dquote;
          feet0 = (if fIndex = - 1 \<and> iIndex = - 1 then js_or (parseInt v) 0 else 0);
          feet = (if fIndex > 0 then js_or (parseInt (js_substring v 0 fIndex)) 0 else feet0);
          inches = (if iIndex > fIndex
                    then js_or (parseInt (js_substring v (fIndex + 1) iIndex)) 0 else 0);
          totalInches = feet * 12 + inches
      in js_toString (Math_round (js_mul (of_int totalInches) lit_2_54)))"

definition updateFeetInchesFromCm :: "string \<Rightarrow> string" where
  "updateFeetInchesFromCm v =
     (let cm = js_or (parseInt v) 0;
          totalInches = Math_round (js_div (of_int cm) lit_2_54)
      in js_toString (Math_floor (js_div (of_int totalInches) 12)) @ [apostrophe]
         @ js_toString (js_rem totalInches 12) @ [dquote])"

definition onLbsChange :: "string \<Rightarrow> string" where
  "onLbsChange v =
     (let lbs = js_or (parseInt v) 0
      in js_toString (Math_round (js_mul (of_int lbs) lit_0_453592)))"

definition onKgChange :: "string \<Rightarrow> string" where
  "onKgChange v =
     (let kg = js_or (parseInt v) 0
      in js_toString (Math_round (js_div (of_int kg) lit_0_453592)))"

subsection \<open>The actor sheet: experience dialog\<close>

text \<open>\<open>_openXPDialog\<close> reads the current experience (\<open>xp.value || 0\<close>) when it opens the
  dialog. The callback of the add button parses the two inputs, computes the adjusted
  experience and updates the actor's experience and bonus.\<close>

definition openXPDialog_currentXP :: "adventurer \<Rightarrow> int" where
  "openXPDialog_currentXP sys = js_or (Some (xp_value sys)) 0"

definition adjustedXP :: "int \<Rightarrow> int \<Rightarrow> int" where
  "adjustedXP gained bonus =
     Math_floor (js_mul (of_int gained) (js_add 1 (js_div (of_int bonus) 100)))"

definition xpAddCallback :: "adventurer \<Rightarrow> string \<Rightarrow> string \<Rightarrow> adventurer" where
  "xpAddCallback sys gainedInput bonusInput =
     (let currentXP = openXPDialog_currentXP sys;
          gained = js_or (parseInt gainedInput) 0;
          bonus = js_or (parseInt bonusInput) 0;
          newXP = currentXP + adjustedXP gained bonus
      in sys\<lparr>xp_value := newXP, xp_modifier := bonus\<rparr>)"

subsection \<open>Example data\<close>

definition example_ability :: "int \<Rightarrow> ability" where
  "example_ability s = \<lparr>ability_score = s, ability_mod = 0\<rparr>"

definition example_adventurer :: adventurer where
  "example_adventurer =
     \<lparr>attack = 1,
      abilities = \<lparr>strength = example_ability 16, intelligence = example_ability 9,
                   wisdom = example_ability 12, dexterity = example_ability 5,
                   constitution = example_ability 13, charisma = example_ability 3\<rparr>,
      kindred = ''elf'', creatureType = ''mortal'', xp_value = 250, xp_modifier = 10,
      extraSkills = []\<rparr>"

definition example_weapon :: "string \<Rightarrow> string \<Rightarrow> bool \<Rightarrow> string list \<Rightarrow> item" where
  "example_weapon i n e qs =
     \<lparr>item_id = i, name = n, img = ''icons/weapon.png'', type = Weapon,
      system = \<lparr>equipped = e, quantity = 1, item_notes = [], qualities = Some qs,
                damage = ''1d8''\<rparr>\<rparr>"

definition example_rations :: item where
  "example_rations =
     \<lparr>item_id = ''r1'', name = ''Rations'', img = ''icons/rations.png'', type = Item,
      system = \<lparr>equipped = False, quantity = 3, item_notes = ''dried'', qualities = None,
                damage = []\<rparr>\<rparr>"

definition example_items :: "item list" where
  "example_items =
     [example_weapon ''w1'' ''Longsword'' True [''melee''],
      example_rations,
      example_weapon ''w2'' ''Shortbow'' True [''missile'', ''two-handed'']]"

definition example_types :: "item_type list \<Rightarrow> item list" where
  "example_types ts =
     map (\<lambda>t. \<lparr>item_id = type_name t, name = type_name t, img = [], type = t,
               system = \<lparr>equipped = True, quantity = 1, item_notes = [], qualities = None,
                         damage = []\<rparr>\<rparr>) ts"

definition example_state :: sheet_state where
  "example_state =
     \<lparr>actor_items = example_items, actor_system = prepareDerivedData example_adventurer,
      warnings = [],
      chat = [], menu = None, open_dialog = None\<rparr>"

definition example_skills :: "string list" where
  "example_skills = [''detectMagic'', ''alertness'', ''stalking'', ''tracking'']"

definition example_skilled :: sheet_state where
  "example_skilled =
     example_state\<lparr>actor_system := example_adventurer
       \<lparr>extraSkills := [\<lparr>skill_id = ''alertness'', skill_target = 6\<rparr>,
                        \<lparr>skill_id = ''tracking'', skill_target = 5\<rparr>]\<rparr>\<rparr>"

section \<open>Properties\<close>

subsection \<open>Ability modifiers\<close>

lemma for_each_ability_sel:
  "f \<in> set ability_fields \<Longrightarrow> f (for_each_ability g ab) = g (f ab)"
  by (auto simp: ability_fields_def for_each_ability_def)

text \<open>
  Claim C2. For every ability score \<open>s\<close> from 3 to 18, \<open>computeModifier s\<close> is the value of
  the piecewise table (-3 up to 3, -2 up to 5, -1 up to 8, 0 up to 12, 1 up to 15, 2 up to
  17, 3 above), which in this range means: -3 at 3, -2 on 4..5, -1 on 6..8, 0 on 9..12,
  1 on 13..15, 2 on 16..17 and 3 at 18; the boundary scores 3, 5, 8, 12, 15, 17, 18 give
  -3, -2, -1, 0, 1, 2, 3. Preparing the derived data of an Adventurer stores, for each of
  its six abilities, the modifier computed from that ability's score, and leaves the
  score as it was.
\<close>

theorem C2_computeModifier_table:
  "(3 \<le> s \<and> s \<le> 18 \<longrightarrow>
      computeModifier s =
        (if s \<le> 3 then - 3 else if s \<le> 5 then - 2 else if s \<le> 8 then - 1
         else if s \<le> 12 then 0 else if s \<le> 15 then 1 else if s \<le> 17 then 2 else 3)
      \<and> computeModifier s =
        (if s = 3 then - 3 else if s \<in> {4..5} then - 2 else if s \<in> {6..8} then - 1
         else if s \<in> {9..12} then 0 else if s \<in> {13..15} then 1
         else if s \<in> {16..17} then 2 else 3))
   \<and> map computeModifier [3, 5, 8, 12, 15, 17, 18] = [- 3, - 2, - 1, 0, 1, 2, 3]
   \<and> (\<forall>f \<in> set ability_fields.
        ability_mod (f (abilities (prepareDerivedData a)))
          = computeModifier (ability_score (f (abilities a)))
        \<and> ability_score (f (abilities (prepareDerivedData a))) = ability_score (f (abilities a)))"
proof -
  have table: "3 \<le> s \<and> s \<le> 18 \<longrightarrow>
      computeModifier s =
        (if s = 3 then - 3 else if s \<in> {4..5} then - 2 else if s \<in> {6..8} then - 1
         else if s \<in> {9..12} then 0 else if s \<in> {13..15} then 1
         else if s \<in> {16..17} then 2 else 3)"
    by (simp add: computeModifier_def)
  have bounds: "map computeModifier [3, 5, 8, 12, 15, 17, 18] = [- 3, - 2, - 1, 0, 1, 2, 3]"
    by (simp add: computeModifier_def)
  have derived: "ability_mod (f (abilities (prepareDerivedData a)))
          = computeModifier (ability_score (f (abilities a)))
        \<and> ability_score (f (abilities (prepareDerivedData a))) = ability_score (f (abilities a))"
    if "f \<in> set ability_fields" for f
    using that by (simp add: prepareDerivedData_def for_each_ability_sel derive_mod_def)
  from table bounds derived show ?thesis
    by (simp add: computeModifier_def)
qed

theorem C2_computeModifier_table_witness:
  "(3::int) \<le> 16 \<and> (16::int) \<le> 18 \<and> computeModifier 16 = 2
   \<and> strength \<in> set ability_fields
   \<and> ability_mod (strength (abilities (prepareDerivedData example_adventurer))) = 2
   \<and> ability_score (strength (abilities (prepareDerivedData example_adventurer))) = 16"
proof -
  have mem: "strength \<in> set ability_fields"
    by (simp add: ability_fields_def)
  have sc: "ability_score (strength (abilities example_adventurer)) = 16"
    by (simp add: example_adventurer_def example_ability_def)
  from C2_computeModifier_table [of 16 example_adventurer] mem sc show ?thesis
    by auto
qed

subsection \<open>The attack formula\<close>

text \<open>
  Claim C1. For every integer \<open>totalMod\<close> the attack formula is \<open>1d20 + \<close> followed by the
  decimal digits of \<open>totalMod\<close> when \<open>totalMod\<close> is at least 0, and \<open>1d20 - \<close> followed by
  the decimal digits of its absolute value when it is negative; 3, -2 and 0 give
  \<open>1d20 + 3\<close>, \<open>1d20 - 2\<close> and \<open>1d20 + 0\<close>. The total modifier is the actor's flat attack
  bonus plus the strength modifier for a melee attack and plus the dexterity modifier for
  a missile attack.
\<close>

theorem C1_attack_formula:
  "buildAttackFormula t =
     (if 0 \<le> t then ''1d20 + '' @ show_nat (nat t) else ''1d20 - '' @ show_nat (nat \<bar>t\<bar>))
   \<and> buildAttackFormula 3 = ''1d20 + 3''
   \<and> buildAttackFormula (- 2) = ''1d20 - 2''
   \<and> buildAttackFormula 0 = ''1d20 + 0''
   \<and> totalMod (getAttackModifiers sys ''melee'')
        = attack sys + ability_mod (strength (abilities sys))
   \<and> totalMod (getAttackModifiers sys ''missile'')
        = attack sys + ability_mod (dexterity (abilities sys))"
proof -
  have general: "buildAttackFormula t =
     (if 0 \<le> t then ''1d20 + '' @ show_nat (nat t) else ''1d20 - '' @ show_nat (nat \<bar>t\<bar>))"
    by (simp add: buildAttackFormula_def js_toString_def)
  have three: "buildAttackFormula 3 = ''1d20 + 3''"
    by (simp add: buildAttackFormula_def js_toString_def show_nat.simps digit_char_def)
  have minus_two: "buildAttackFormula (- 2) = ''1d20 - 2''"
    by (simp add: buildAttackFormula_def js_toString_def show_nat.simps digit_char_def)
  have zero: "buildAttackFormula 0 = ''1d20 + 0''"
    by (simp add: buildAttackFormula_def js_toString_def show_nat.simps digit_char_def)
  have melee: "totalMod (getAttackModifiers sys ''melee'')
        = attack sys + ability_mod (strength (abilities sys))"
    by (simp add: getAttackModifiers_def js_or_def Let_def)
  have missile: "totalMod (getAttackModifiers sys ''missile'')
        = attack sys + ability_mod (dexterity (abilities sys))"
    by (simp add: getAttackModifiers_def js_or_def Let_def)
  from general three minus_two zero melee missile show ?thesis
    by blast
qed

subsection \<open>The quality checkboxes of the item sheet\<close>

lemma indexOf_nonneg_iff: "0 \<le> indexOf xs x \<longleftrightarrow> x \<in> set xs"
  by (induction xs) (auto simp: Let_def)

lemma indexOf_le_length: "indexOf xs x < int (length xs)"
  by (induction xs) (auto simp: Let_def)

lemma splice_indexOf_remove1:
  "x \<in> set xs \<Longrightarrow> js_splice xs (indexOf xs x) 1 = remove1 x xs"
proof (induction xs)
  case Nil
  then show ?case by simp
next
  case (Cons y ys)
  show ?case
  proof (cases "y = x")
    case True
    then show ?thesis by (simp add: js_splice_def)
  next
    case False
    with Cons.prems have mem: "x \<in> set ys" by simp
    then have nn: "0 \<le> indexOf ys x" by (simp add: indexOf_nonneg_iff)
    have lt: "indexOf ys x < int (length ys)" by (rule indexOf_le_length)
    from Cons.IH [OF mem] nn lt False show ?thesis
      by (simp add: js_splice_def Let_def nat_add_distrib min_def)
  qed
qed

text \<open>
  Claim C9. Toggling a quality checkbox persists a new qualities list: the old list with
  the quality appended when the box was checked and the quality was absent, the old list
  without the first occurrence of the quality when the box was unchecked and the quality
  was present, and the old list otherwise. The entries other than that quality are the
  same, in the same order, and no other field of the item changes.
\<close>

theorem C9_quality_toggle:
  "qualities (system (onQualityChange it q checked)) =
     Some (let qs = (case qualities (system it) of None \<Rightarrow> [] | Some qs \<Rightarrow> qs)
           in if checked \<and> q \<notin> set qs then qs @ [q]
              else if \<not> checked \<and> q \<in> set qs then remove1 q qs
              else qs)
   \<and> (\<exists>qs'. qualities (system (onQualityChange it q checked)) = Some qs'
         \<and> filter (\<lambda>x. x \<noteq> q) qs'
             = filter (\<lambda>x. x \<noteq> q) (case qualities (system it) of None \<Rightarrow> [] | Some qs \<Rightarrow> qs))
   \<and> onQualityChange it q checked
       = it\<lparr>system := (system it)\<lparr>qualities := qualities (system (onQualityChange it q checked))\<rparr>\<rparr>"
proof -
  define qs where "qs = (case qualities (system it) of None \<Rightarrow> [] | Some qs \<Rightarrow> qs)"
  define qs' where "qs' = (if checked \<and> q \<notin> set qs then qs @ [q]
              else if \<not> checked \<and> q \<in> set qs then remove1 q qs
              else qs)"
  have new: "onQualityChange it q checked = set_qualities qs' it"
    unfolding onQualityChange_def qs_def [symmetric] qs'_def
    by (simp add: js_includes_def js_push_def splice_indexOf_remove1 del: One_nat_def)
  have others: "filter (\<lambda>x. x \<noteq> q) qs' = filter (\<lambda>x. x \<noteq> q) qs"
    unfolding qs'_def by (induction qs) auto
  from new others show ?thesis
    unfolding qs_def [symmetric] by (simp add: set_qualities_def qs'_def Let_def)
qed

subsection \<open>The quantity buttons\<close>

lemma item_id_set_quantity: "item_id (set_quantity q it) = item_id it"
  by (simp add: set_quantity_def)

lemma items_get_update_same:
  "items_get its i = Some it \<Longrightarrow> item_id (f it) = i \<Longrightarrow>
   items_get (item_update its i f) i = Some (f it)"
  by (induction its) (auto simp: items_get_def split: if_splits)

lemma items_get_update_other:
  "j \<noteq> i \<Longrightarrow> (\<And>x. item_id (f x) = item_id x) \<Longrightarrow>
   items_get (item_update its i f) j = items_get its j"
  by (induction its) (auto simp: items_get_def)

lemma items_get_id: "items_get its i = Some it \<Longrightarrow> item_id it = i \<and> it \<in> set its"
  by (induction its) (auto simp: items_get_def split: if_splits)

lemma set_item_update:
  "x \<in> set (item_update its i f) \<Longrightarrow> x \<in> set its \<or> (\<exists>y \<in> set its. x = f y)"
  by (induction its) (auto split: if_splits)

lemma onIncreaseQty_some:
  assumes "items_get its i = Some it" and "i \<noteq> []" and "1 \<le> quantity (system it)"
  shows "onIncreaseQty its (Some i) = item_update its i (set_quantity (quantity (system it) + 1))"
  using assms by (simp add: onIncreaseQty_def js_or_def)

lemma onDecreaseQty_some:
  assumes "items_get its i = Some it" and "i \<noteq> []" and "1 \<le> quantity (system it)"
  shows "onDecreaseQty its (Some i) =
           (if 1 < quantity (system it)
            then item_update its i (set_quantity (quantity (system it) - 1)) else its)"
  using assms by (simp add: onDecreaseQty_def js_or_def)

lemma onIncreaseQty_inv:
  assumes "\<forall>x \<in> set its. 1 \<le> quantity (system x)"
  shows "\<forall>x \<in> set (onIncreaseQty its t). 1 \<le> quantity (system x)"
proof
  fix x assume x: "x \<in> set (onIncreaseQty its t)"
  show "1 \<le> quantity (system x)"
  proof (cases "\<exists>i it. t = Some i \<and> i \<noteq> [] \<and> items_get its i = Some it")
    case True
    then obtain i it where t: "t = Some i" "i \<noteq> []" "items_get its i = Some it" by blast
    from t(3) have "it \<in> set its" by (simp add: items_get_id)
    with assms have q: "1 \<le> quantity (system it)" by blast
    from x t q have "x \<in> set (item_update its i (set_quantity (quantity (system it) + 1)))"
      by (simp add: onIncreaseQty_some)
    from set_item_update [OF this] assms q show ?thesis
      by (auto simp: set_quantity_def)
  next
    case False
    then have "onIncreaseQty its t = its"
      by (auto simp: onIncreaseQty_def split: option.splits)
    with x assms show ?thesis by simp
  qed
qed

lemma onDecreaseQty_inv:
  assumes "\<forall>x \<in> set its. 1 \<le> quantity (system x)"
  shows "\<forall>x \<in> set (onDecreaseQty its t). 1 \<le> quantity (system x)"
proof
  fix x assume x: "x \<in> set (onDecreaseQty its t)"
  show "1 \<le> quantity (system x)"
  proof (cases "\<exists>i it. t = Some i \<and> i \<noteq> [] \<and> items_get its i = Some it \<and> 1 < quantity (system it)")
    case True
    then obtain i it where t: "t = Some i" "i \<noteq> []" "items_get its i = Some it"
      and q: "1 < quantity (system it)" by blast
    from x t q have "x \<in> set (item_update its i (set_quantity (quantity (system it) - 1)))"
      by (simp add: onDecreaseQty_some)
    from set_item_update [OF this] assms q show ?thesis
      by (auto simp: set_quantity_def)
  next
    case False
    then have "onDecreaseQty its t = its"
      by (auto simp: onDecreaseQty_def js_or_def Let_def split: option.splits if_splits)
    with x assms show ?thesis by simp
  qed
qed

text \<open>
  Claim C10. For an item of the collection (its quantity at least 1, as the schema
  requires), the increase button sets the quantity to the current quantity plus 1; the
  decrease button sets it to the current quantity minus 1 when the current quantity is
  greater than 1 and otherwise changes nothing; no other item changes. Both buttons,
  whatever they are clicked on, keep every quantity at least 1.
\<close>

theorem C10_quantity_buttons:
  "(items_get its i = Some it \<and> i \<noteq> [] \<and> 1 \<le> quantity (system it) \<longrightarrow>
      items_get (onIncreaseQty its (Some i)) i
        = Some (it\<lparr>system := (system it)\<lparr>quantity := quantity (system it) + 1\<rparr>\<rparr>)
      \<and> (1 < quantity (system it) \<longrightarrow>
           items_get (onDecreaseQty its (Some i)) i
             = Some (it\<lparr>system := (system it)\<lparr>quantity := quantity (system it) - 1\<rparr>\<rparr>))
      \<and> (\<not> 1 < quantity (system it) \<longrightarrow> onDecreaseQty its (Some i) = its)
      \<and> (\<forall>j. j \<noteq> i \<longrightarrow>
            items_get (onIncreaseQty its (Some i)) j = items_get its j
            \<and> items_get (onDecreaseQty its (Some i)) j = items_get its j))
   \<and> ((\<forall>x \<in> set its. 1 \<le> quantity (system x)) \<longrightarrow>
        (\<forall>x \<in> set (onIncreaseQty its t). 1 \<le> quantity (system x))
        \<and> (\<forall>x \<in> set (onDecreaseQty its t). 1 \<le> quantity (system x)))"
proof -
  have one: "items_get (onIncreaseQty its (Some i)) i
        = Some (it\<lparr>system := (system it)\<lparr>quantity := quantity (system it) + 1\<rparr>\<rparr>)
      \<and> (1 < quantity (system it) \<longrightarrow>
           items_get (onDecreaseQty its (Some i)) i
             = Some (it\<lparr>system := (system it)\<lparr>quantity := quantity (system it) - 1\<rparr>\<rparr>))
      \<and> (\<not> 1 < quantity (system it) \<longrightarrow> onDecreaseQty its (Some i) = its)
      \<and> (\<forall>j. j \<noteq> i \<longrightarrow>
            items_get (onIncreaseQty its (Some i)) j = items_get its j
            \<and> items_get (onDecreaseQty its (Some i)) j = items_get its j)"
    if h: "items_get its i = Some it" "i \<noteq> []" "1 \<le> quantity (system it)"
  proof -
    from h(1) have idi: "item_id it = i" by (simp add: items_get_id)
    have inc: "onIncreaseQty its (Some i)
                 = item_update its i (set_quantity (quantity (system it) + 1))"
      using h by (rule onIncreaseQty_some)
    have dec: "onDecreaseQty its (Some i) =
           (if 1 < quantity (system it)
            then item_update its i (set_quantity (quantity (system it) - 1)) else its)"
      using h by (rule onDecreaseQty_some)
    have a: "items_get (onIncreaseQty its (Some i)) i
        = Some (it\<lparr>system := (system it)\<lparr>quantity := quantity (system it) + 1\<rparr>\<rparr>)"
      using items_get_update_same [OF h(1), of "set_quantity (quantity (system it) + 1)"] idi
      by (simp add: inc item_id_set_quantity) (simp add: set_quantity_def)
    have b: "items_get (onDecreaseQty its (Some i)) i
             = Some (it\<lparr>system := (system it)\<lparr>quantity := quantity (system it) - 1\<rparr>\<rparr>)"
      if "1 < quantity (system it)"
      using items_get_update_same [OF h(1), of "set_quantity (quantity (system it) - 1)"] idi that
      by (simp add: dec item_id_set_quantity) (simp add: set_quantity_def)
    have c: "onDecreaseQty its (Some i) = its" if "\<not> 1 < quantity (system it)"
      using that by (simp add: dec)
    have d: "items_get (onIncreaseQty its (Some i)) j = items_get its j
            \<and> items_get (onDecreaseQty its (Some i)) j = items_get its j" if "j \<noteq> i" for j
      using that by (simp add: inc dec items_get_update_other item_id_set_quantity)
    from a b c d show ?thesis by blast
  qed
  have two: "(\<forall>x \<in> set (onIncreaseQty its t). 1 \<le> quantity (system x))
        \<and> (\<forall>x \<in> set (onDecreaseQty its t). 1 \<le> quantity (system x))"
    if "\<forall>x \<in> set its. 1 \<le> quantity (system x)"
    using that onIncreaseQty_inv onDecreaseQty_inv by blast
  from one two show ?thesis by blast
qed

lemma example_get_r1: "items_get example_items ''r1'' = Some example_rations"
  by (simp add: items_get_def example_items_def example_weapon_def example_rations_def)

lemma example_quantities: "\<forall>x \<in> set example_items. 1 \<le> quantity (system x)"
  by (simp add: example_items_def example_weapon_def example_rations_def)

theorem C10_quantity_buttons_witness:
  "items_get example_items ''r1'' = Some example_rations
   \<and> quantity (system example_rations) = 3
   \<and> items_get (onIncreaseQty example_items (Some ''r1'')) ''r1''
       = Some (example_rations\<lparr>system := (system example_rations)\<lparr>quantity := 4\<rparr>\<rparr>)
   \<and> items_get (onDecreaseQty example_items (Some ''r1'')) ''r1''
       = Some (example_rations\<lparr>system := (system example_rations)\<lparr>quantity := 2\<rparr>\<rparr>)
   \<and> items_get (onIncreaseQty example_items (Some ''r1'')) ''w1'' = items_get example_items ''w1''
   \<and> list_all (\<lambda>x. 1 \<le> quantity (system x)) (onIncreaseQty example_items (Some ''r1''))
   \<and> list_all (\<lambda>x. 1 \<le> quantity (system x)) (onDecreaseQty example_items (Some ''r1''))"
proof -
  have q: "quantity (system example_rations) = 3"
    by (simp add: example_rations_def)
  have ne: "''r1'' \<noteq> ''w1''" "''r1'' \<noteq> []" "''w1'' \<noteq> ''r1''" by simp_all
  from C10_quantity_buttons [of example_items "''r1''" example_rations "Some ''r1''"]
    example_get_r1 example_quantities q ne
  show ?thesis
    by (simp add: list_all_iff)
qed

subsection \<open>Inventory groups\<close>

text \<open>The group of a type after the loop: its items are the items of that type, in order, after those it had.\<close>

lemma group_loop_at:
  "group_loop L its groups t =
     (case groups t of
        None \<Rightarrow> if t \<in> type ` set its
                 then Some ((new_group L t)\<lparr>group_items := filter (\<lambda>i. type i = t) its\<rparr>)
                 else None
      | Some g \<Rightarrow> Some (g\<lparr>group_items := group_items g @ filter (\<lambda>i. type i = t) its\<rparr>))"
proof (induction its arbitrary: groups)
  case Nil
  then show ?case by (simp split: option.splits)
next
  case (Cons it its)
  show ?case
    by (simp add: Cons.IH Let_def js_push_def new_group_def split: option.splits)
qed

lemma group_loop_empty:
  "group_loop L its Map.empty t =
     (if t \<in> type ` set its
      then Some ((new_group L t)\<lparr>group_items := filter (\<lambda>i. type i = t) its\<rparr>)
      else None)"
  by (simp add: group_loop_at)

lemma groupItemsByType_eq:
  "groupItemsByType L its =
     map (\<lambda>t. (new_group L t)\<lparr>group_items := filter (\<lambda>i. type i = t) its\<rparr>)
       (filter (\<lambda>t. t \<in> type ` set its) typeOrder)"
  by (simp add: groupItemsByType_def Let_def group_loop_empty cong: map_cong)

text \<open>
  Claim C6. For every list of prepared inventory items, the groups come in the fixed order
  Weapon, Armor, Item, Treasure, Foraged, and a type has a group exactly when the list has
  an item of that type. The items of a group are the items of the list that have the
  group's type, in the order of the list; the group carries the localized label of its
  type and the five type flags. Items of the types Armor, Weapon, Weapon, Treasure give
  the groups Weapon (2 items), Armor (1), Treasure (1).
\<close>

theorem C6_group_items_by_type:
  "map group_type (groupItemsByType L its) = filter (\<lambda>t. t \<in> type ` set its) typeOrder
   \<and> typeOrder = [Weapon, Armor, Item, Treasure, Foraged]
   \<and> (\<forall>g \<in> set (groupItemsByType L its).
         group_items g = filter (\<lambda>i. type i = group_type g) its
         \<and> group_items g \<noteq> []
         \<and> label g = L (''TYPES.Item.'' @ type_name (group_type g))
         \<and> typeLower g = js_toLowerCase (type_name (group_type g))
         \<and> isWeapon g = (group_type g = Weapon)
         \<and> isArmor g = (group_type g = Armor)
         \<and> isItem g = (group_type g = Item)
         \<and> isTreasure g = (group_type g = Treasure)
         \<and> isForaged g = (group_type g = Foraged))
   \<and> (map type its = [Armor, Weapon, Weapon, Treasure] \<longrightarrow>
         map (\<lambda>g. (group_type g, length (group_items g))) (groupItemsByType L its)
           = [(Weapon, 2), (Armor, 1), (Treasure, 1)])"
proof -
  have order: "map group_type (groupItemsByType L its)
                 = filter (\<lambda>t. t \<in> type ` set its) typeOrder"
    by (simp add: groupItemsByType_eq comp_def new_group_def)
  have each: "group_items g = filter (\<lambda>i. type i = group_type g) its
         \<and> group_items g \<noteq> []
         \<and> label g = L (''TYPES.Item.'' @ type_name (group_type g))
         \<and> typeLower g = js_toLowerCase (type_name (group_type g))
         \<and> isWeapon g = (group_type g = Weapon)
         \<and> isArmor g = (group_type g = Armor)
         \<and> isItem g = (group_type g = Item)
         \<and> isTreasure g = (group_type g = Treasure)
         \<and> isForaged g = (group_type g = Foraged)"
    if "g \<in> set (groupItemsByType L its)" for g
  proof -
    from that obtain t where t: "t \<in> type ` set its"
      and g: "g = (new_group L t)\<lparr>group_items := filter (\<lambda>i. type i = t) its\<rparr>"
      by (auto simp: groupItemsByType_eq)
    from t have "filter (\<lambda>i. type i = t) its \<noteq> []"
      by (auto simp: filter_empty_conv)
    with g show ?thesis by (simp add: new_group_def)
  qed
  have example: "map (\<lambda>g. (group_type g, length (group_items g))) (groupItemsByType L its)
           = [(Weapon, 2), (Armor, 1), (Treasure, 1)]"
    if "map type its = [Armor, Weapon, Weapon, Treasure]"
  proof -
    from that obtain a b c d where its: "its = [a, b, c, d]"
      and ty: "type a = Armor" "type b = Weapon" "type c = Weapon" "type d = Treasure"
      by (auto simp: map_eq_Cons_conv)
    show ?thesis
      by (simp add: groupItemsByType_eq its ty typeOrder_def new_group_def)
  qed
  have fixed: "typeOrder = [Weapon, Armor, Item, Treasure, Foraged]"
    by (simp add: typeOrder_def)
  from order fixed each example show ?thesis
    by blast
qed

theorem C6_group_items_by_type_witness:
  "map type (example_types [Armor, Weapon, Weapon, Treasure]) = [Armor, Weapon, Weapon, Treasure]
   \<and> map group_type (groupItemsByType (\<lambda>k. k) (example_types [Armor, Weapon, Weapon, Treasure]))
       = [Weapon, Armor, Treasure]
   \<and> map (\<lambda>g. (group_type g, length (group_items g)))
        (groupItemsByType (\<lambda>k. k) (example_types [Armor, Weapon, Weapon, Treasure]))
       = [(Weapon, 2), (Armor, 1), (Treasure, 1)]
   \<and> list_all (\<lambda>g. label g = ''TYPES.Item.'' @ type_name (group_type g))
        (groupItemsByType (\<lambda>k. k) (example_types [Armor, Weapon, Weapon, Treasure]))"
proof -
  have ty: "map type (example_types [Armor, Weapon, Weapon, Treasure])
              = [Armor, Weapon, Weapon, Treasure]"
    by (simp add: example_types_def)
  have present: "filter (\<lambda>t. t \<in> type ` set (example_types [Armor, Weapon, Weapon, Treasure]))
                   typeOrder = [Weapon, Armor, Treasure]"
    by (simp add: example_types_def typeOrder_def)
  from C6_group_items_by_type
         [of "\<lambda>k. k" "example_types [Armor, Weapon, Weapon, Treasure]"] ty present
  show ?thesis
    by (simp add: list_all_iff)
qed

subsection \<open>The attack workflow\<close>

lemma getEquippedWeaponsByQuality_eq:
  "getEquippedWeaponsByQuality its q
     = filter (\<lambda>it. type it = Weapon \<and> equipped (system it)
                 \<and> q \<in> set (case qualities (system it) of None \<Rightarrow> [] | Some qs \<Rightarrow> qs)) its"
  unfolding getEquippedWeaponsByQuality_def
  by (rule filter_cong) (auto simp: js_includes_def split: option.splits)

text \<open>
  Claim C7. On a left click for an attack type, the candidate weapons are the actor's
  items of type Weapon that are equipped and whose qualities contain the attack type, in
  the order of the collection. With no candidate the handler adds a warning and changes
  nothing else (no chat message, no menu, the actor as before); with exactly one it posts
  the chat message of an attack and damage roll with that weapon; with more than one it
  opens the weapon menu with the candidates and posts nothing.
\<close>

theorem C7_attack_roll:
  "getEquippedWeaponsByQuality (actor_items st) attackType
     = filter (\<lambda>it. type it = Weapon \<and> equipped (system it)
                 \<and> attackType \<in> set (case qualities (system it) of None \<Rightarrow> [] | Some qs \<Rightarrow> qs))
         (actor_items st)
   \<and> (getEquippedWeaponsByQuality (actor_items st) attackType = [] \<longrightarrow>
        onAttackRoll L F d20 st attackType
          = st\<lparr>warnings := warnings st @
                 [F ''DOLMEN.Attack.NoWeapon'' (L (''DOLMEN.Item.Quality.'' @ attackType))]\<rparr>)
   \<and> (\<forall>w. getEquippedWeaponsByQuality (actor_items st) attackType = [w] \<longrightarrow>
        onAttackRoll L F d20 st attackType
          = st\<lparr>chat := chat st @
                 [\<lparr>msg_weapon = w,
                   msg_attackType = L (''DOLMEN.Item.Quality.'' @ attackType),
                   msg_attack = Some
                     \<lparr>atk_formula = buildAttackFormula
                                      (totalMod (getAttackModifiers (actor_system st) attackType)),
                      resultClass = fst (getAttackResultState L d20),
                      resultLabel = snd (getAttackResultState L d20)\<rparr>,
                   msg_damage = Some (damage (system w))\<rparr>]\<rparr>)
   \<and> (1 < length (getEquippedWeaponsByQuality (actor_items st) attackType) \<longrightarrow>
        onAttackRoll L F d20 st attackType
          = st\<lparr>menu := Some (WeaponMenu (getEquippedWeaponsByQuality (actor_items st) attackType)
                                attackType)\<rparr>)"
proof -
  let ?ws = "getEquippedWeaponsByQuality (actor_items st) attackType"
  have cand: "?ws = filter (\<lambda>it. type it = Weapon \<and> equipped (system it)
                 \<and> attackType \<in> set (case qualities (system it) of None \<Rightarrow> [] | Some qs \<Rightarrow> qs))
         (actor_items st)"
    by (rule getEquippedWeaponsByQuality_eq)
  have none: "onAttackRoll L F d20 st attackType
          = st\<lparr>warnings := warnings st @
                 [F ''DOLMEN.Attack.NoWeapon'' (L (''DOLMEN.Item.Quality.'' @ attackType))]\<rparr>"
    if "?ws = []"
    using that by (simp add: onAttackRoll_def)
  have one: "onAttackRoll L F d20 st attackType
          = st\<lparr>chat := chat st @
                 [\<lparr>msg_weapon = w,
                   msg_attackType = L (''DOLMEN.Item.Quality.'' @ attackType),
                   msg_attack = Some
                     \<lparr>atk_formula = buildAttackFormula
                                      (totalMod (getAttackModifiers (actor_system st) attackType)),
                      resultClass = fst (getAttackResultState L d20),
                      resultLabel = snd (getAttackResultState L d20)\<rparr>,
                   msg_damage = Some (damage (system w))\<rparr>]\<rparr>"
    if "?ws = [w]" for w
    using that
    by (simp add: onAttackRoll_def rollAttack_def performAttackRoll_def Let_def
          split: prod.splits)
  have many: "onAttackRoll L F d20 st attackType = st\<lparr>menu := Some (WeaponMenu ?ws attackType)\<rparr>"
    if "1 < length ?ws"
    using that by (auto simp: onAttackRoll_def openWeaponContextMenu_def Let_def)
  from cand none one many show ?thesis
    by blast
qed

lemma example_melee:
  "getEquippedWeaponsByQuality (actor_items example_state) ''melee''
     = [example_weapon ''w1'' ''Longsword'' True [''melee'']]"
  by (simp add: example_state_def example_items_def example_weapon_def example_rations_def
        getEquippedWeaponsByQuality_def js_includes_def)

lemma example_reach:
  "getEquippedWeaponsByQuality (actor_items example_state) ''reach'' = []"
  by (simp add: example_state_def example_items_def example_weapon_def example_rations_def
        getEquippedWeaponsByQuality_def js_includes_def)

lemma example_two_bows:
  "getEquippedWeaponsByQuality
     (actor_items (example_state\<lparr>actor_items :=
        example_weapon ''w3'' ''Sling'' True [''missile''] # example_items\<rparr>)) ''missile''
   = [example_weapon ''w3'' ''Sling'' True [''missile''],
      example_weapon ''w2'' ''Shortbow'' True [''missile'', ''two-handed'']]"
  by (simp add: example_state_def example_items_def example_weapon_def example_rations_def
        getEquippedWeaponsByQuality_def js_includes_def)

theorem C7_attack_roll_witness:
  "getEquippedWeaponsByQuality (actor_items example_state) ''reach'' = []
   \<and> onAttackRoll (\<lambda>k. k) (\<lambda>k v. k @ '' '' @ v) 20 example_state ''reach''
       = example_state\<lparr>warnings := [''DOLMEN.Attack.NoWeapon DOLMEN.Item.Quality.reach'']\<rparr>
   \<and> getEquippedWeaponsByQuality (actor_items example_state) ''melee''
       = [example_weapon ''w1'' ''Longsword'' True [''melee'']]
   \<and> map (\<lambda>m. (item_id (msg_weapon m), map_option atk_formula (msg_attack m), msg_damage m))
        (chat (onAttackRoll (\<lambda>k. k) (\<lambda>k v. k @ '' '' @ v) 20 example_state ''melee''))
       = [(''w1'', Some ''1d20 + 3'', Some ''1d8'')]
   \<and> length (getEquippedWeaponsByQuality
        (actor_items (example_state\<lparr>actor_items :=
           example_weapon ''w3'' ''Sling'' True [''missile''] # example_items\<rparr>)) ''missile'') = 2
   \<and> menu (onAttackRoll (\<lambda>k. k) (\<lambda>k v. k @ '' '' @ v) 20
        (example_state\<lparr>actor_items :=
           example_weapon ''w3'' ''Sling'' True [''missile''] # example_items\<rparr>) ''missile'')
       = Some (WeaponMenu [example_weapon ''w3'' ''Sling'' True [''missile''],
                           example_weapon ''w2'' ''Shortbow'' True [''missile'', ''two-handed'']]
                 ''missile'')
   \<and> chat (onAttackRoll (\<lambda>k. k) (\<lambda>k v. k @ '' '' @ v) 20
        (example_state\<lparr>actor_items :=
           example_weapon ''w3'' ''Sling'' True [''missile''] # example_items\<rparr>) ''missile'') = []"
proof -
  let ?L = "\<lambda>k::string. k" and ?F = "\<lambda>(k::string) v. k @ '' '' @ v"
  let ?st2 = "example_state\<lparr>actor_items :=
           example_weapon ''w3'' ''Sling'' True [''missile''] # example_items\<rparr>"
  have formula: "buildAttackFormula (totalMod (getAttackModifiers (actor_system example_state) ''melee''))
                   = ''1d20 + 3''"
    by (simp add: example_state_def example_adventurer_def example_ability_def
          prepareDerivedData_def for_each_ability_def derive_mod_def computeModifier_def
          getAttackModifiers_def js_or_def buildAttackFormula_def js_toString_def
          show_nat.simps digit_char_def Let_def)
  have a: "onAttackRoll ?L ?F 20 example_state ''reach''
       = example_state\<lparr>warnings := [''DOLMEN.Attack.NoWeapon DOLMEN.Item.Quality.reach'']\<rparr>"
    using C7_attack_roll [of example_state "''reach''" ?L ?F 20] example_reach
    by (simp add: example_state_def)
  have b: "map (\<lambda>m. (item_id (msg_weapon m), map_option atk_formula (msg_attack m), msg_damage m))
        (chat (onAttackRoll ?L ?F 20 example_state ''melee''))
       = [(''w1'', Some ''1d20 + 3'', Some ''1d8'')]"
    using C7_attack_roll [of example_state "''melee''" ?L ?F 20] example_melee formula
    by (simp add: example_state_def example_weapon_def)
  have c: "onAttackRoll ?L ?F 20 ?st2 ''missile''
       = ?st2\<lparr>menu := Some (WeaponMenu [example_weapon ''w3'' ''Sling'' True [''missile''],
                           example_weapon ''w2'' ''Shortbow'' True [''missile'', ''two-handed'']]
                 ''missile'')\<rparr>"
    using C7_attack_roll [of ?st2 "''missile''" ?L ?F 20] example_two_bows
    by simp
  from a b c example_reach example_melee example_two_bows show ?thesis
    by (simp add: example_state_def)
qed

subsection \<open>Extra skills\<close>

text \<open>
  Claim C8. When the number of extra skills held is at least the configured maximum, the
  add-skill action only adds a warning: the skill list is unchanged and no dialog opens,
  whether or not unused skill ids remain. When the dialog opens, its options are the
  configured skill ids that are not held, in the configured order.
\<close>

theorem C8_add_skill_dialog:
  "(cfg_max \<le> int (length (extraSkills (actor_system st))) \<longrightarrow>
      (\<exists>msg. openAddSkillDialog L cfg_skills cfg_max st = st\<lparr>warnings := warnings st @ [msg]\<rparr>)
      \<and> extraSkills (actor_system (openAddSkillDialog L cfg_skills cfg_max st))
          = extraSkills (actor_system st)
      \<and> open_dialog (openAddSkillDialog L cfg_skills cfg_max st) = open_dialog st)
   \<and> (\<forall>opts. open_dialog (openAddSkillDialog L cfg_skills cfg_max st) = Some (AddSkillDialog opts)
         \<and> open_dialog st = None \<longrightarrow>
         opts = filter (\<lambda>i. i \<notin> skill_id ` set (extraSkills (actor_system st))) cfg_skills)
   \<and> (int (length (extraSkills (actor_system st))) < cfg_max
        \<and> filter (\<lambda>i. i \<notin> skill_id ` set (extraSkills (actor_system st))) cfg_skills \<noteq> [] \<longrightarrow>
        openAddSkillDialog L cfg_skills cfg_max st
          = st\<lparr>open_dialog := Some (AddSkillDialog
                 (filter (\<lambda>i. i \<notin> skill_id ` set (extraSkills (actor_system st))) cfg_skills))\<rparr>)"
  by (auto simp: openAddSkillDialog_def Let_def js_includes_def)

theorem C8_add_skill_dialog_witness:
  "(2::int) \<le> int (length (extraSkills (actor_system example_skilled)))
   \<and> filter (\<lambda>i. i \<notin> skill_id ` set (extraSkills (actor_system example_skilled))) example_skills
       = [''detectMagic'', ''stalking'']
   \<and> openAddSkillDialog (\<lambda>k. k) example_skills 2 example_skilled
       = example_skilled\<lparr>warnings := [''DOLMEN.NoSkillsAvailable'']\<rparr>
   \<and> open_dialog example_skilled = None
   \<and> openAddSkillDialog (\<lambda>k. k) example_skills 3 example_skilled
       = example_skilled\<lparr>open_dialog := Some (AddSkillDialog [''detectMagic'', ''stalking''])\<rparr>"
proof -
  have len: "int (length (extraSkills (actor_system example_skilled))) = 2"
    by (simp add: example_skilled_def)
  have avail: "filter (\<lambda>i. i \<notin> skill_id ` set (extraSkills (actor_system example_skilled)))
                 example_skills = [''detectMagic'', ''stalking'']"
    by (simp add: example_skilled_def example_skills_def)
  have nodlg: "open_dialog example_skilled = None"
    by (simp add: example_skilled_def example_state_def)
  have w: "warnings example_skilled = []"
    by (simp add: example_skilled_def example_state_def)
  have rej: "openAddSkillDialog (\<lambda>k. k) example_skills 2 example_skilled
       = example_skilled\<lparr>warnings := [''DOLMEN.NoSkillsAvailable'']\<rparr>"
    by (simp add: openAddSkillDialog_def Let_def example_skilled_def example_state_def)
  have "\<exists>msg. openAddSkillDialog (\<lambda>k. k) example_skills 2 example_skilled
           = example_skilled\<lparr>warnings := warnings example_skilled @ [msg]\<rparr>"
    using C8_add_skill_dialog [of 2 example_skilled "\<lambda>k. k" example_skills] len by simp
  moreover have "openAddSkillDialog (\<lambda>k. k) example_skills 3 example_skilled
       = example_skilled\<lparr>open_dialog := Some (AddSkillDialog [''detectMagic'', ''stalking''])\<rparr>"
    using C8_add_skill_dialog [of 3 example_skilled "\<lambda>k. k" example_skills] len avail by simp
  ultimately show ?thesis
    using len avail nodlg rej by simp
qed

subsection \<open>Double-precision rounding\<close>

text \<open>The exponent that \<open>ilog2\<close> computes is the binary exponent of its argument.\<close>

lemma ilog2_bounds:
  assumes "0 < x"
  shows "2 powi (ilog2 x) \<le> x" and "x < 2 powi (ilog2 x + 1)"
proof -
  obtain p q where pq: "quotient_of x = (p, q)" by (cases "quotient_of x")
  then have q: "0 < q" and x: "x = of_int p / of_int q"
    by (simp_all add: quotient_of_denom_pos quotient_of_div)
  from assms q x have p: "0 < p"
    by (simp add: zero_less_divide_iff)
  define bp where "bp = bitlen p"
  define bq where "bq = bitlen q"
  from bitlen_bounds [OF p] have bp: "2 ^ nat (bp - 1) \<le> p" "p < 2 ^ nat bp"
    by (simp_all add: bp_def)
  from bitlen_bounds [OF q] have bq: "2 ^ nat (bq - 1) \<le> q" "q < 2 ^ nat bq"
    by (simp_all add: bq_def)
  have bp1: "1 \<le> bp" using p by (simp add: bp_def bitlen_alt_def)
  have bq1: "1 \<le> bq" using q by (simp add: bq_def bitlen_alt_def)
  have P1: "(2::rat) powi (bp - 1) \<le> of_int p"
  proof -
    have "(2::rat) powi (bp - 1) = 2 ^ nat (bp - 1)"
      using bp1 by (simp add: power_int_def)
    also have "\<dots> = of_int (2 ^ nat (bp - 1))" by simp
    also have "\<dots> \<le> of_int p" using bp(1) by (simp only: of_int_le_iff)
    finally show ?thesis .
  qed
  have P2: "of_int p < (2::rat) powi bp"
  proof -
    have "(of_int p :: rat) < of_int (2 ^ nat bp)" using bp(2) by (simp only: of_int_less_iff)
    also have "\<dots> = 2 powi bp" using bp1 by (simp add: power_int_def)
    finally show ?thesis .
  qed
  have Q1: "(2::rat) powi (bq - 1) \<le> of_int q"
  proof -
    have "(2::rat) powi (bq - 1) = 2 ^ nat (bq - 1)"
      using bq1 by (simp add: power_int_def)
    also have "\<dots> = of_int (2 ^ nat (bq - 1))" by simp
    also have "\<dots> \<le> of_int q" using bq(1) by (simp only: of_int_le_iff)
    finally show ?thesis .
  qed
  have Q2: "of_int q < (2::rat) powi bq"
  proof -
    have "(of_int q :: rat) < of_int (2 ^ nat bq)" using bq(2) by (simp only: of_int_less_iff)
    also have "\<dots> = 2 powi bq" using bq1 by (simp add: power_int_def)
    finally show ?thesis .
  qed
  have qpos: "(0::rat) < of_int q" using q by simp
  have low: "(2::rat) powi (bp - bq - 1) \<le> x"
  proof -
    have "(2::rat) powi (bp - bq - 1) * of_int q \<le> 2 powi (bp - bq - 1) * 2 powi bq"
      using Q2 by (intro mult_left_mono) simp_all
    also have "\<dots> = 2 powi (bp - 1)"
      by (simp add: power_int_add [symmetric])
    also have "\<dots> \<le> of_int p" by (rule P1)
    finally show ?thesis using qpos by (simp add: x pos_le_divide_eq)
  qed
  have high: "x < (2::rat) powi (bp - bq + 1)"
  proof -
    have "of_int p < (2::rat) powi bp" by (rule P2)
    also have "\<dots> = 2 powi (bp - bq + 1) * 2 powi (bq - 1)"
      by (simp add: power_int_add [symmetric])
    also have "\<dots> \<le> 2 powi (bp - bq + 1) * of_int q"
      using Q1 by (intro mult_left_mono) simp_all
    finally show ?thesis using qpos by (simp add: x pos_divide_less_eq)
  qed
  have e: "ilog2 x = (if 2 powi (bp - bq) \<le> x then bp - bq else bp - bq - 1)"
    by (simp add: ilog2_def pq bp_def bq_def Let_def)
  show "2 powi (ilog2 x) \<le> x"
    using low by (simp add: e)
  show "x < 2 powi (ilog2 x + 1)"
    using high by (auto simp: e not_le)
qed

lemma round_even_ge:
  assumes "of_int m - 1 / 2 < y"
  shows "m \<le> round_even y"
proof -
  have "of_int (m - 1) \<le> y" using assms by simp
  then have f: "m - 1 \<le> \<lfloor>y\<rfloor>" by (simp only: le_floor_iff)
  show ?thesis
  proof (cases "m \<le> \<lfloor>y\<rfloor>")
    case True
    then show ?thesis by (simp add: round_even_def Let_def)
  next
    case False
    with f have eq: "\<lfloor>y\<rfloor> = m - 1" by simp
    with assms have "1 / 2 < y - of_int \<lfloor>y\<rfloor>" by simp
    then show ?thesis by (simp add: round_even_def Let_def eq)
  qed
qed

lemma round_even_less:
  assumes "y < of_int m - 1 / 2"
  shows "round_even y < m"
proof -
  have "y < of_int m" using assms by simp
  then have f: "\<lfloor>y\<rfloor> < m" by (simp only: floor_less_iff)
  show ?thesis
  proof (cases "\<lfloor>y\<rfloor> = m - 1")
    case True
    with assms have "y - of_int \<lfloor>y\<rfloor> < 1 / 2" by simp
    then show ?thesis by (simp add: round_even_def Let_def True)
  next
    case False
    with f have "\<lfloor>y\<rfloor> + 1 < m" by simp
    then show ?thesis by (simp add: round_even_def Let_def)
  qed
qed

text \<open>For \<open>0 < x < 2^52\<close> the doubles around \<open>x\<close> are the multiples of a power of two
  \<open>u \<le> 1/2\<close>, so every half-integer is one of them; \<open>u/2\<close> lies between \<open>x / 2^54\<close> and
  \<open>x / 2^53\<close>. Rounding to the nearest multiple cannot cross a half-integer that the exact
  value stays clear of by that margin.\<close>

lemma fl_grid:
  assumes "0 < x" and "x < 2 ^ 52"
  obtains u :: rat and j :: nat where
    "0 < u" and "fl x = of_int (round_even (x / u)) * u" and "u * (2 * 2 ^ j) = 1"
    and "x / 2 ^ 54 < u / 2" and "u / 2 \<le> x / 2 ^ 53"
proof -
  define e where "e = ilog2 x"
  define u :: rat where "u = 2 powi (e - 52)"
  define j where "j = nat (51 - e)"
  from ilog2_bounds [OF assms(1)] have lo: "2 powi e \<le> x" and hi: "x < 2 powi (e + 1)"
    by (simp_all add: e_def)
  have "(2::rat) powi e < 2 powi 52"
    using lo assms(2) by (simp add: power_int_def)
  then have "e < 52"
    by (rule power_int_le_imp_less_exp [rotated]) simp_all
  then have e: "e \<le> 51" by simp
  have upos: "0 < u" by (simp add: u_def)
  have fl: "fl x = of_int (round_even (x / u)) * u"
    using assms(1) by (simp add: fl_def u_def e_def Let_def)
  have p2: "(2::rat) * 2 ^ j = 2 powi (1 + int j)"
  proof -
    have "1 + int j = int (Suc j)" by simp
    then have "(2::rat) powi (1 + int j) = 2 powi int (Suc j)" by (simp only:)
    also have "\<dots> = 2 ^ Suc j" by (rule power_int_of_nat)
    finally show ?thesis by simp
  qed
  have "u * (2 * 2 ^ j) = 2 powi (e - 52) * 2 powi (1 + int j)"
    by (simp only: p2 u_def)
  also have "\<dots> = 2 powi (e - 52 + (1 + int j))"
    by (rule power_int_add [symmetric]) simp
  also have "e - 52 + (1 + int j) = 0"
    using e by (simp add: j_def)
  finally have grid: "u * (2 * 2 ^ j) = 1" by simp
  have half: "u / 2 = 2 powi (e - 53)"
  proof -
    have "e - 52 = e - 53 + 1" by simp
    then have "(2::rat) powi (e - 52) = 2 powi (e - 53 + 1)" by (simp only:)
    also have "\<dots> = 2 powi (e - 53) * 2" by (subst power_int_add) simp_all
    finally show ?thesis by (simp add: u_def)
  qed
  have a: "x / 2 ^ 54 < u / 2"
  proof -
    have "e + 1 = e - 53 + 54" by simp
    then have "(2::rat) powi (e + 1) = 2 powi (e - 53 + 54)" by (simp only:)
    also have "\<dots> = 2 powi (e - 53) * 2 powi 54" by (subst power_int_add) simp_all
    also have "\<dots> = 2 powi (e - 53) * 2 ^ 54" by (simp add: power_int_def)
    finally have "x < 2 powi (e - 53) * 2 ^ 54" using hi by simp
    then show ?thesis by (simp add: half pos_divide_less_eq)
  qed
  have b: "u / 2 \<le> x / 2 ^ 53"
  proof -
    have "e = e - 53 + 53" by simp
    then have "(2::rat) powi e = 2 powi (e - 53 + 53)" by (simp only:)
    also have "\<dots> = 2 powi (e - 53) * 2 powi 53" by (subst power_int_add) simp_all
    also have "\<dots> = 2 powi (e - 53) * 2 ^ 53" by (simp add: power_int_def)
    finally have "2 powi (e - 53) * 2 ^ 53 \<le> x" using lo by simp
    then show ?thesis by (simp add: half pos_le_divide_eq)
  qed
  from upos fl grid a b show ?thesis by (rule that)
qed

lemma fl_ge_half:
  assumes "0 < x" and "x < 2 ^ 52" and "of_int m / 2 < x + x / 2 ^ 54"
  shows "of_int m / 2 \<le> fl x"
proof -
  from assms(1,2) obtain u :: rat and j :: nat where
    u: "0 < u" and fl: "fl x = of_int (round_even (x / u)) * u" and grid: "u * (2 * 2 ^ j) = 1"
    and a: "x / 2 ^ 54 < u / 2"
    by (rule fl_grid)
  define M :: int where "M = m * 2 ^ j"
  have Mu: "of_int M * u = of_int m / 2"
  proof -
    have "of_int M * u = of_int m / 2 * (u * (2 * 2 ^ j))" by (simp add: M_def)
    then show ?thesis by (simp only: grid mult_1_right)
  qed
  have "of_int M * u - u / 2 < x" using assms(3) a by (simp add: Mu)
  then have "(of_int M - 1 / 2) * u < x" by (simp add: algebra_simps)
  then have "of_int M - 1 / 2 < x / u" using u by (simp add: pos_less_divide_eq)
  then have "M \<le> round_even (x / u)" by (rule round_even_ge)
  then have "(of_int M :: rat) \<le> of_int (round_even (x / u))" by (simp only: of_int_le_iff)
  then have "of_int M * u \<le> of_int (round_even (x / u)) * u"
    using u by (intro mult_right_mono) simp_all
  then show ?thesis by (simp only: Mu fl)
qed

lemma fl_less_half:
  assumes "0 < x" and "x < 2 ^ 52" and "x + x / 2 ^ 53 < of_int m / 2"
  shows "fl x < of_int m / 2"
proof -
  from assms(1,2) obtain u :: rat and j :: nat where
    u: "0 < u" and fl: "fl x = of_int (round_even (x / u)) * u" and grid: "u * (2 * 2 ^ j) = 1"
    and b: "u / 2 \<le> x / 2 ^ 53"
    by (rule fl_grid)
  define M :: int where "M = m * 2 ^ j"
  have Mu: "of_int M * u = of_int m / 2"
  proof -
    have "of_int M * u = of_int m / 2 * (u * (2 * 2 ^ j))" by (simp add: M_def)
    then show ?thesis by (simp only: grid mult_1_right)
  qed
  have "x < of_int M * u - u / 2" using assms(3) b by (simp add: Mu)
  then have "x < (of_int M - 1 / 2) * u" by (simp add: algebra_simps)
  then have "x / u < of_int M - 1 / 2" using u by (simp add: pos_divide_less_eq)
  then have "round_even (x / u) < M" by (rule round_even_less)
  then have "(of_int (round_even (x / u)) :: rat) < of_int M" by (simp only: of_int_less_iff)
  then have "of_int (round_even (x / u)) * u < of_int M * u"
    using u by (simp only: mult_less_cancel_right_pos)
  then show ?thesis by (simp only: Mu fl)
qed

lemma Math_round_fl:
  assumes "0 < x" and "x < 2 ^ 52"
    and "of_int k - 1 / 2 < x + x / 2 ^ 54" and "x + x / 2 ^ 53 < of_int k + 1 / 2"
  shows "Math_round (fl x) = k"
proof -
  have "of_int (2 * k - 1) / 2 \<le> fl x"
    using assms(1,2) by (rule fl_ge_half) (use assms(3) in \<open>simp add: diff_divide_distrib\<close>)
  moreover have "fl x < of_int (2 * k + 1) / 2"
    using assms(1,2) by (rule fl_less_half) (use assms(4) in \<open>simp add: add_divide_distrib\<close>)
  ultimately have "of_int k \<le> fl x + 1 / 2" and "fl x + 1 / 2 < of_int k + 1"
    by (simp_all add: diff_divide_distrib add_divide_distrib)
  then show ?thesis
    unfolding Math_round_def by (simp only: floor_unique)
qed

lemma Math_floor_fl:
  assumes "0 < x" and "x < 2 ^ 52"
    and "of_int k \<le> x" and "x + x / 2 ^ 53 < of_int k + 1"
  shows "Math_floor (fl x) = k"
proof -
  have "of_int (2 * k) / 2 \<le> fl x"
    using assms(1,2) by (rule fl_ge_half) (use assms(1,3) in \<open>simp add: add_strict_increasing2\<close>)
  moreover have "fl x < of_int (2 * k + 2) / 2"
    using assms(1,2) by (rule fl_less_half) (use assms(4) in \<open>simp add: add_divide_distrib\<close>)
  ultimately have "of_int k \<le> fl x" and "fl x < of_int k + 1"
    by (simp_all add: add_divide_distrib)
  then show ?thesis
    unfolding Math_floor_def by (simp only: floor_unique)
qed

lemma lit_2_54_eq: "lit_2_54 = 2859785763380265 / 1125899906842624"
  by code_simp

lemma lit_0_453592_eq: "lit_0_453592 = 1021398381089119 / 2251799813685248"
  by code_simp

lemma fl_zero: "fl 0 = 0"
  by (simp add: fl_def)

lemma Math_round_zero: "Math_round 0 = 0"
  unfolding Math_round_def by (rule floor_unique) simp_all

lemma rat_of_int_range:
  assumes "0 \<le> n" and "n \<noteq> 0" and "n < 10 ^ 9"
  shows "(1::rat) \<le> of_int n" and "(of_int n :: rat) < 10 ^ 9"
proof -
  from assms have "1 \<le> n" by simp
  then have "(of_int 1 :: rat) \<le> of_int n" by (simp only: of_int_le_iff)
  then show "(1::rat) \<le> of_int n" by simp
  from assms have "(of_int n :: rat) < of_int (10 ^ 9)" by (simp only: of_int_less_iff)
  then show "(of_int n :: rat) < 10 ^ 9" by simp
qed

text \<open>Rounding a double-precision result that approximates a ratio of integers.\<close>

lemma Math_round_fl_ratio:
  fixes x :: rat and a b :: int
  assumes b: "0 < b" and x: "0 < x" "x < 2 ^ 52"
    and lower: "of_int a / of_int b < x + x / 2 ^ 54"
    and upper: "x + x / 2 ^ 53 < of_int a / of_int b + 1 / (2 * of_int b)"
  shows "Math_round (fl x) = round (of_int a / of_int b :: rat)"
proof -
  define K where "K = (2 * a + b) div (2 * b)"
  define r where "r = (2 * a + b) mod (2 * b)"
  have r: "0 \<le> r" "r \<le> 2 * b - 1"
    using b by (simp_all add: r_def)
  have split: "2 * a + b = 2 * b * K + r"
    by (simp add: K_def r_def)
  have bpos: "(0::rat) < of_int b" using b by simp
  have "(of_int a / of_int b :: rat) + 1 / 2 = of_int (2 * a + b) / of_int (2 * b)"
    using bpos by (simp add: field_simps)
  then have round_eq: "round (of_int a / of_int b :: rat) = K"
    by (simp only: round_def K_def floor_divide_of_int_eq)
  have "of_int (2 * a + b) = (of_int (2 * b * K + r) :: rat)"
    by (simp only: split)
  then have q: "(of_int a / of_int b :: rat) = of_int K - 1 / 2 + of_int r / (2 * of_int b)"
    using bpos by (simp add: field_simps)
  have r0: "(0::rat) \<le> of_int r / (2 * of_int b)"
    using r(1) bpos by simp
  have "(of_int r :: rat) \<le> of_int (2 * b - 1)" using r(2) by (simp only: of_int_le_iff)
  then have "(of_int r :: rat) / (2 * of_int b) \<le> of_int (2 * b - 1) / (2 * of_int b)"
    using bpos by (simp add: divide_right_mono)
  also have "\<dots> = 1 - 1 / (2 * of_int b)"
    using bpos by (simp add: field_simps)
  finally have r1: "(of_int r :: rat) / (2 * of_int b) \<le> 1 - 1 / (2 * of_int b)" .
  have "Math_round (fl x) = K"
  proof (rule Math_round_fl [OF x])
    show "of_int K - 1 / 2 < x + x / 2 ^ 54"
      using lower q r0 by linarith
    show "x + x / 2 ^ 53 < of_int K + 1 / 2"
      using upper q r1 by linarith
  qed
  then show ?thesis by (simp only: round_eq)
qed

lemma round_mul_2_54:
  assumes "0 \<le> n" and "n < 10 ^ 9"
  shows "Math_round (js_mul (of_int n) lit_2_54) = round (of_int n * 254 / 100 :: rat)"
proof (cases "n = 0")
  case True
  then show ?thesis by (simp add: js_mul_def fl_zero Math_round_zero)
next
  case False
  have n: "(1::rat) \<le> of_int n" "(of_int n :: rat) < 10 ^ 9"
    using rat_of_int_range [OF assms(1) False assms(2)] by blast+
  define x :: rat where "x = of_int n * (2859785763380265 / 1125899906842624)"
  have "Math_round (fl x) = round (of_int (254 * n) / of_int 100 :: rat)"
  proof (rule Math_round_fl_ratio)
    show "(0::int) < 100" by simp
    show "0 < x" using n by (simp add: x_def)
    show "x < 2 ^ 52" using n by (simp add: x_def)
    show "of_int (254 * n) / of_int 100 < x + x / 2 ^ 54"
      using n by (simp add: x_def)
    show "x + x / 2 ^ 53 < of_int (254 * n) / of_int 100 + 1 / (2 * of_int 100)"
      using n by (simp add: x_def)
  qed
  then show ?thesis
    by (simp add: js_mul_def lit_2_54_eq x_def)
qed

lemma round_div_2_54:
  assumes "0 \<le> n" and "n < 10 ^ 9"
  shows "Math_round (js_div (of_int n) lit_2_54) = round (of_int n / (254 / 100) :: rat)"
proof (cases "n = 0")
  case True
  then show ?thesis by (simp add: js_div_def fl_zero Math_round_zero)
next
  case False
  have n: "(1::rat) \<le> of_int n" "(of_int n :: rat) < 10 ^ 9"
    using rat_of_int_range [OF assms(1) False assms(2)] by blast+
  define x :: rat where "x = of_int n / (2859785763380265 / 1125899906842624)"
  have "Math_round (fl x) = round (of_int (100 * n) / of_int 254 :: rat)"
  proof (rule Math_round_fl_ratio)
    show "(0::int) < 254" by simp
    show "0 < x" using n by (simp add: x_def)
    show "x < 2 ^ 52" using n by (simp add: x_def)
    show "of_int (100 * n) / of_int 254 < x + x / 2 ^ 54"
      using n by (simp add: x_def)
    show "x + x / 2 ^ 53 < of_int (100 * n) / of_int 254 + 1 / (2 * of_int 254)"
      using n by (simp add: x_def)
  qed
  then show ?thesis
    by (simp add: js_div_def lit_2_54_eq x_def mult.commute)
qed

lemma round_mul_0_453592:
  assumes "0 \<le> n" and "n < 10 ^ 9"
  shows "Math_round (js_mul (of_int n) lit_0_453592) = round (of_int n * 453592 / 1000000 :: rat)"
proof (cases "n = 0")
  case True
  then show ?thesis by (simp add: js_mul_def fl_zero Math_round_zero)
next
  case False
  have n: "(1::rat) \<le> of_int n" "(of_int n :: rat) < 10 ^ 9"
    using rat_of_int_range [OF assms(1) False assms(2)] by blast+
  define x :: rat where "x = of_int n * (1021398381089119 / 2251799813685248)"
  have "Math_round (fl x) = round (of_int (453592 * n) / of_int 1000000 :: rat)"
  proof (rule Math_round_fl_ratio)
    show "(0::int) < 1000000" by simp
    show "0 < x" using n by (simp add: x_def)
    show "x < 2 ^ 52" using n by (simp add: x_def)
    show "of_int (453592 * n) / of_int 1000000 < x + x / 2 ^ 54"
      using n by (simp add: x_def)
    show "x + x / 2 ^ 53 < of_int (453592 * n) / of_int 1000000 + 1 / (2 * of_int 1000000)"
      using n by (simp add: x_def)
  qed
  then show ?thesis
    by (simp add: js_mul_def lit_0_453592_eq x_def)
qed

lemma round_div_0_453592:
  assumes "0 \<le> n" and "n < 10 ^ 9"
  shows "Math_round (js_div (of_int n) lit_0_453592) = round (of_int n / (453592 / 1000000) :: rat)"
proof (cases "n = 0")
  case True
  then show ?thesis by (simp add: js_div_def fl_zero Math_round_zero)
next
  case False
  have n: "(1::rat) \<le> of_int n" "(of_int n :: rat) < 10 ^ 9"
    using rat_of_int_range [OF assms(1) False assms(2)] by blast+
  define x :: rat where "x = of_int n / (1021398381089119 / 2251799813685248)"
  have "Math_round (fl x) = round (of_int (1000000 * n) / of_int 453592 :: rat)"
  proof (rule Math_round_fl_ratio)
    show "(0::int) < 453592" by simp
    show "0 < x" using n by (simp add: x_def)
    show "x < 2 ^ 52" using n by (simp add: x_def)
    show "of_int (1000000 * n) / of_int 453592 < x + x / 2 ^ 54"
      using n by (simp add: x_def)
    show "x + x / 2 ^ 53 < of_int (1000000 * n) / of_int 453592 + 1 / (2 * of_int 453592)"
      using n by (simp add: x_def)
  qed
  then show ?thesis
    by (simp add: js_div_def lit_0_453592_eq x_def mult.commute)
qed

lemma floor_div_12:
  assumes "0 \<le> t" and "t < 10 ^ 9"
  shows "Math_floor (js_div (of_int t) 12) = t div 12"
proof (cases "t = 0")
  case True
  then show ?thesis by (simp add: js_div_def fl_zero Math_floor_def)
next
  case False
  have t: "(1::rat) \<le> of_int t" "(of_int t :: rat) < 10 ^ 9"
    using rat_of_int_range [OF assms(1) False assms(2)] by blast+
  define x :: rat where "x = of_int t / 12"
  define k where "k = t div 12"
  define r where "r = t mod 12"
  have r: "0 \<le> r" "r \<le> 11" by (simp_all add: r_def)
  have "t = 12 * k + r" by (simp add: k_def r_def)
  then have "(of_int t :: rat) = of_int (12 * k + r)" by (simp only:)
  then have xk: "x = of_int k + of_int r / 12" by (simp add: x_def)
  have r0: "(0::rat) \<le> of_int r / 12" using r(1) by simp
  have "(of_int r :: rat) \<le> of_int 11" using r(2) by (simp only: of_int_le_iff)
  then have r1: "(of_int r :: rat) / 12 \<le> 11 / 12" by simp
  have "Math_floor (fl x) = k"
  proof (rule Math_floor_fl)
    show "0 < x" using t by (simp add: x_def)
    show "x < 2 ^ 52" using t by (simp add: x_def)
    show "of_int k \<le> x" using xk r0 by linarith
    have "x / 2 ^ 53 < 1 / 12" using t by (simp add: x_def)
    then show "x + x / 2 ^ 53 < of_int k + 1" using xk r1 by linarith
  qed
  then show ?thesis by (simp add: js_div_def x_def k_def)
qed

text \<open>The relative error of one rounding is at most \<open>2^-53\<close>.\<close>

lemma round_even_near: "\<bar>of_int (round_even y) - y\<bar> \<le> (1 / 2 :: rat)"
proof -
  have lo: "of_int \<lfloor>y\<rfloor> \<le> y" by (rule of_int_floor_le)
  have hi: "y < of_int \<lfloor>y\<rfloor> + 1" using floor_correct [of y] by simp
  show ?thesis
    using lo hi by (auto simp: round_even_def Let_def abs_le_iff)
qed

lemma fl_error:
  assumes "x \<noteq> 0"
  shows "\<bar>fl x - x\<bar> \<le> \<bar>x\<bar> / 2 ^ 53"
proof -
  define e where "e = ilog2 \<bar>x\<bar>"
  define u :: rat where "u = 2 powi (e - 52)"
  have pos: "0 < \<bar>x\<bar>" using assms by simp
  from ilog2_bounds(1) [OF pos] have lo: "2 powi e \<le> \<bar>x\<bar>" by (simp add: e_def)
  have upos: "0 < u" by (simp add: u_def)
  have fl: "fl x = of_int (round_even (x / u)) * u"
    using assms by (simp add: fl_def u_def e_def Let_def)
  have "e = e - 52 + 52" by simp
  then have "(2::rat) powi e = 2 powi (e - 52 + 52)" by (simp only:)
  also have "\<dots> = 2 powi (e - 52) * 2 powi 52" by (subst power_int_add) simp_all
  also have "\<dots> = u * 2 ^ 52" by (simp add: u_def power_int_def)
  finally have u: "u * 2 ^ 52 \<le> \<bar>x\<bar>" using lo by simp
  have "fl x - x = (of_int (round_even (x / u)) - x / u) * u"
    using upos by (simp add: fl field_simps)
  then have "\<bar>fl x - x\<bar> = \<bar>of_int (round_even (x / u)) - x / u\<bar> * u"
    using upos by (simp add: abs_mult)
  also have "\<dots> \<le> 1 / 2 * u"
    using round_even_near [of "x / u"] upos by (intro mult_right_mono) simp_all
  also have "\<dots> \<le> \<bar>x\<bar> / 2 ^ 53" using u by simp
  finally show ?thesis .
qed

text \<open>Three familiar values of the arithmetic: the double nearest to \<open>0.1\<close>, the sum
  \<open>0.1 + 0.2 = 0.30000000000000004\<close> and the product \<open>1.15 * 100 = 114.99999999999999\<close>.\<close>

lemma fl_examples:
  "fl (1 / 10) = 3602879701896397 / 36028797018963968"
  "js_add (fl (1 / 10)) (fl (2 / 10)) = 1351079888211149 / 4503599627370496"
  "js_mul (fl (115 / 100)) 100 = 115 - 1 / 2 ^ 46"
  by code_simp+

subsection \<open>Decimal strings and \<open>parseInt\<close>\<close>

lemma digit_cases:
  "d < 10 \<Longrightarrow> d = 0 \<or> d = 1 \<or> d = 2 \<or> d = 3 \<or> d = 4 \<or> d = 5 \<or> d = 6 \<or> d = 7 \<or> d = 8 \<or> d = (9::nat)"
  by arith

lemma digit_of_digit_char: "d < 10 \<Longrightarrow> digit_of (digit_char d) = Some d"
  by (drule digit_cases) (auto simp: digit_of_def digit_char_def)

lemma digit_char_in: "d < 10 \<Longrightarrow> digit_char d \<in> set ''0123456789''"
  by (drule digit_cases) (auto simp: digit_char_def)

lemma show_nat_digits: "set (show_nat n) \<subseteq> set ''0123456789''"
proof (induction n rule: show_nat.induct)
  case (1 n)
  show ?case
  proof (cases "n < 10")
    case True
    then show ?thesis
      using digit_char_in [of n] by (subst show_nat.simps) simp
  next
    case False
    then have "set (show_nat (n div 10)) \<subseteq> set ''0123456789''" by (rule "1.IH")
    moreover have "digit_char (n mod 10) \<in> set ''0123456789''"
      by (rule digit_char_in) simp
    ultimately show ?thesis
      using False by (subst show_nat.simps) simp
  qed
qed

lemma show_nat_not_Nil: "show_nat n \<noteq> []"
  by (subst show_nat.simps) simp

lemma take_digits_append:
  "\<forall>c \<in> set s. d c \<noteq> None \<Longrightarrow> take_digits d (s @ t) = take_digits d s @ take_digits d t"
  by (induction s) auto

lemma digit_in_digit_of: "c \<in> set ''0123456789'' \<Longrightarrow> digit_of c \<noteq> None"
  by (auto simp: digit_of_def)

lemma take_digits_show_nat:
  "digits_value 10 (take_digits digit_of (show_nat n)) = n"
proof (induction n rule: show_nat.induct)
  case (1 n)
  show ?case
  proof (cases "n < 10")
    case True
    then show ?thesis
      by (subst show_nat.simps) (simp add: digit_of_digit_char digits_value_def)
  next
    case False
    have all: "\<forall>c \<in> set (show_nat (n div 10)). digit_of c \<noteq> None"
      using show_nat_digits [of "n div 10"] digit_in_digit_of by blast
    have "take_digits digit_of (show_nat n)
            = take_digits digit_of (show_nat (n div 10)) @ [n mod 10]"
      using False
      by (subst show_nat.simps) (simp add: take_digits_append [OF all] digit_of_digit_char)
    then show ?thesis
      using "1.IH" [OF False] by (simp add: digits_value_def)
  qed
qed

lemma take_digits_show_nat_not_Nil: "take_digits digit_of (show_nat n) \<noteq> []"
proof -
  obtain c cs where s: "show_nat n = c # cs"
    using show_nat_not_Nil [of n] by (cases "show_nat n") auto
  with show_nat_digits [of n] have "c \<in> set ''0123456789''" by auto
  then have "digit_of c \<noteq> None" by (rule digit_in_digit_of)
  with s show ?thesis by auto
qed

lemma parseInt_digits:
  assumes "s \<noteq> []" and "set s \<subseteq> set ''0123456789''"
  shows "parseInt s = (let z = take_digits digit_of s
                       in if z = [] then None else Some (int (digits_value 10 z)))"
proof -
  obtain c cs where s: "s = c # cs" using assms(1) by (cases s) auto
  with assms(2) have c: "c \<in> set ''0123456789''" by auto
  then have nsp: "\<not> is_space c" and nsign: "c \<noteq> CHR ''-''" "c \<noteq> CHR ''+''"
    by (auto simp: is_space_def)
  show ?thesis
  proof (cases cs)
    case Nil
    then show ?thesis using nsp nsign by (simp add: parseInt_def s Let_def)
  next
    case (Cons c1 cs')
    with assms(2) s have "c1 \<in> set ''0123456789''" by auto
    then have "c1 \<noteq> CHR ''x''" "c1 \<noteq> CHR ''X''" by auto
    then show ?thesis using nsp nsign Cons
      by (simp add: parseInt_def s Let_def)
  qed
qed

lemma parseInt_show_nat: "parseInt (show_nat n) = Some (int n)"
  using parseInt_digits [OF show_nat_not_Nil show_nat_digits, of n]
  by (simp add: Let_def take_digits_show_nat take_digits_show_nat_not_Nil)

lemma parseInt_minus_show_nat: "parseInt (CHR ''-'' # show_nat n) = Some (- int n)"
proof -
  define s where "s = show_nat n"
  have ne: "s \<noteq> []" and dig: "set s \<subseteq> set ''0123456789''"
    unfolding s_def by (rule show_nat_not_Nil, rule show_nat_digits)
  have z: "take_digits digit_of s \<noteq> []" "digits_value 10 (take_digits digit_of s) = n"
    unfolding s_def by (rule take_digits_show_nat_not_Nil, rule take_digits_show_nat)
  have nsp: "\<not> is_space CHR ''-''" by (simp add: is_space_def)
  obtain c cs where s: "s = c # cs" using ne by (cases s) auto
  have radix: "(case s of
                  c0 # c1 # cs \<Rightarrow>
                    if c0 = CHR ''0'' \<and> (c1 = CHR ''x'' \<or> c1 = CHR ''X'')
                    then (16, hex_digit_of, cs) else (10, digit_of, s)
                | _ \<Rightarrow> (10::nat, digit_of, s)) = (10, digit_of, s)"
  proof (cases cs)
    case Nil
    then show ?thesis by (simp add: s)
  next
    case (Cons c1 cs')
    with dig s have "c1 \<in> set ''0123456789''" by auto
    then have "c1 \<noteq> CHR ''x''" "c1 \<noteq> CHR ''X''" by auto
    then show ?thesis by (simp add: s Cons)
  qed
  have "parseInt (CHR ''-'' # s) = Some (- int n)"
    unfolding parseInt_def using nsp z by (simp add: Let_def radix)
  then show ?thesis by (simp only: s_def)
qed

lemma parseInt_js_toString: "parseInt (js_toString b) = Some b"
proof (cases "b < 0")
  case True
  then show ?thesis
    using parseInt_minus_show_nat [of "nat (- b)"] by (simp add: js_toString_def)
next
  case False
  then show ?thesis
    using parseInt_show_nat [of "nat b"] by (simp add: js_toString_def)
qed

lemma indexOf_append_first:
  "x \<notin> set xs \<Longrightarrow> indexOf (xs @ x # ys) x = int (length xs)"
  by (induction xs) (auto simp: Let_def)

lemma indexOf_absent: "x \<notin> set xs \<Longrightarrow> indexOf xs x = - 1"
  by (induction xs) (auto simp: Let_def)

lemma apostrophe_not_digit: "apostrophe \<notin> set (show_nat n)"
  using show_nat_digits [of n] by (auto simp: apostrophe_def)

lemma dquote_not_digit: "dquote \<notin> set (show_nat n)"
  using show_nat_digits [of n] by (auto simp: dquote_def)

lemma js_toString_nonneg: "0 \<le> k \<Longrightarrow> js_toString k = show_nat (nat k)"
  by (simp add: js_toString_def)

lemma js_rem_nonneg: "0 \<le> a \<Longrightarrow> js_rem a 12 = a mod 12"
  by (cases "a = 0") (simp_all add: js_rem_def)

lemma feet_inches_parse:
  fixes F I :: nat
  defines "v \<equiv> show_nat F @ [apostrophe] @ show_nat I @ [dquote]"
  shows "indexOf v apostrophe = int (length (show_nat F))"
    and "indexOf v dquote = int (length (show_nat F)) + 1 + int (length (show_nat I))"
    and "js_substring v 0 (int (length (show_nat F))) = show_nat F"
    and "js_substring v (int (length (show_nat F)) + 1)
           (int (length (show_nat F)) + 1 + int (length (show_nat I))) = show_nat I"
proof -
  show "indexOf v apostrophe = int (length (show_nat F))"
    unfolding v_def using indexOf_append_first [OF apostrophe_not_digit] by simp
  have "dquote \<notin> set (show_nat F @ [apostrophe] @ show_nat I)"
    using dquote_not_digit by (simp add: apostrophe_def dquote_def)
  from indexOf_append_first [OF this, of "[]"]
  show "indexOf v dquote = int (length (show_nat F)) + 1 + int (length (show_nat I))"
    unfolding v_def by simp
  show "js_substring v 0 (int (length (show_nat F))) = show_nat F"
    unfolding v_def by (simp add: js_substring_def Let_def)
  show "js_substring v (int (length (show_nat F)) + 1)
           (int (length (show_nat F)) + 1 + int (length (show_nat I))) = show_nat I"
    unfolding v_def by (simp add: js_substring_def Let_def nat_add_distrib)
qed

lemma updateCmFromFeetInches_total:
  "updateCmFromFeetInches (show_nat F @ [apostrophe] @ show_nat I @ [dquote])
     = js_toString (Math_round (js_mul (of_int (int F * 12 + int I)) lit_2_54))"
proof -
  define v where "v = show_nat F @ [apostrophe] @ show_nat I @ [dquote]"
  note parse = feet_inches_parse [of F I, folded v_def]
  have pos: "0 < int (length (show_nat F))"
    using show_nat_not_Nil [of F] by simp
  have "updateCmFromFeetInches v
          = js_toString (Math_round (js_mul (of_int (int F * 12 + int I)) lit_2_54))"
    unfolding updateCmFromFeetInches_def
    using pos by (simp add: parse Let_def parseInt_show_nat js_or_def)
  then show ?thesis by (simp only: v_def)
qed

subsection \<open>Height conversion\<close>

lemma round_nonneg:
  fixes x :: rat
  assumes "0 \<le> x"
  shows "0 \<le> round x"
proof -
  have "of_int 0 \<le> x + 1 / 2" using assms by simp
  then show ?thesis unfolding round_def by (simp only: le_floor_iff)
qed

lemma round_less_bound:
  fixes x :: rat
  assumes "x + 1 / 2 < 10 ^ 9"
  shows "round x < 10 ^ 9"
proof -
  have "x + 1 / 2 < of_int (10 ^ 9)" using assms by simp
  then show ?thesis unfolding round_def by (simp only: floor_less_iff)
qed

lemma js_or_Some_0: "js_or (Some n) 0 = n"
  by (simp add: js_or_def)

lemma show_nat_5: "show_nat 5 = ''5''" and show_nat_10: "show_nat 10 = ''10''"
  and show_nat_178: "show_nat 178 = ''178''" and show_nat_150: "show_nat 150 = ''150''"
  and show_nat_68: "show_nat 68 = ''68''"
  by (simp_all add: show_nat.simps digit_char_def)

lemma updateFeetInchesFromCm_total:
  assumes "cm < 10 ^ 9"
  shows "updateFeetInchesFromCm (show_nat cm)
        = (let totalInches = round (of_nat cm / (254 / 100) :: rat)
           in js_toString (totalInches div 12) @ [apostrophe]
              @ js_toString (totalInches mod 12) @ [dquote])"
proof -
  define t where "t = round (of_nat cm / (254 / 100) :: rat)"
  have cm: "0 \<le> int cm" "int cm < 10 ^ 9" using assms by simp_all
  have c: "(of_nat cm :: rat) < 10 ^ 9"
    using assms by (metis of_nat_less_iff of_nat_numeral of_nat_power)
  have r: "Math_round (js_div (of_nat cm) lit_2_54) = t"
    using round_div_2_54 [OF cm] by (simp add: t_def)
  have t: "0 \<le> t" "t < 10 ^ 9"
    unfolding t_def using c by (intro round_nonneg round_less_bound; simp)+
  have f: "Math_floor (js_div (of_int t) 12) = t div 12"
    using t by (rule floor_div_12)
  have "updateFeetInchesFromCm (show_nat cm)
          = js_toString (t div 12) @ [apostrophe] @ js_toString (t mod 12) @ [dquote]"
    unfolding updateFeetInchesFromCm_def
    using t by (simp add: parseInt_show_nat js_or_Some_0 Let_def r f js_rem_nonneg del: of_nat_eq_0_iff)
  then show ?thesis by (simp add: t_def Let_def)
qed

text \<open>
  Claim C4. Editing the feet-and-inches field with \<open>F\<close> feet and \<open>I\<close> inches (the text
  \<open>F'I"\<close>, both numbers in decimal) stores \<open>round ((F * 12 + I) * 2.54)\<close> in the
  centimetre field; editing the centimetre field with the value \<open>cm\<close> stores the feet
  \<open>floor (totalInches / 12)\<close> and the inches \<open>totalInches mod 12\<close> of
  \<open>totalInches = round (cm / 2.54)\<close> in the feet-and-inches field. Both hold for heights
  below \<open>10^9\<close> inches or centimetres, where the double-precision results are those of the
  exact arithmetic. \<open>5'10"\<close> gives \<open>178\<close>, and \<open>178\<close> gives \<open>5'10"\<close>.
\<close>

theorem C4_height_conversion:
  fixes F I cm :: nat
  shows
  "(F * 12 + I < 10 ^ 9 \<longrightarrow>
      updateCmFromFeetInches (show_nat F @ [apostrophe] @ show_nat I @ [dquote])
        = js_toString (round (of_nat (F * 12 + I) * 254 / 100 :: rat)))
   \<and> (cm < 10 ^ 9 \<longrightarrow>
      updateFeetInchesFromCm (show_nat cm)
        = (let totalInches = round (of_nat cm / (254 / 100) :: rat)
           in js_toString (totalInches div 12) @ [apostrophe]
              @ js_toString (totalInches mod 12) @ [dquote]))
   \<and> updateCmFromFeetInches (''5'' @ [apostrophe] @ ''10'' @ [dquote]) = ''178''
   \<and> updateFeetInchesFromCm ''178'' = ''5'' @ [apostrophe] @ ''10'' @ [dquote]"
proof -
  have fwd: "updateCmFromFeetInches (show_nat F @ [apostrophe] @ show_nat I @ [dquote])
        = js_toString (round (of_nat (F * 12 + I) * 254 / 100 :: rat))"
    if "F * 12 + I < 10 ^ 9"
  proof -
    have n: "0 \<le> int F * 12 + int I" "int F * 12 + int I < 10 ^ 9"
      using that by simp_all
    have "(of_int (int F * 12 + int I) :: rat) = of_nat (F * 12 + I)" by simp
    with round_mul_2_54 [OF n] show ?thesis
      by (simp only: updateCmFromFeetInches_total)
  qed
  have ex1: "updateCmFromFeetInches (''5'' @ [apostrophe] @ ''10'' @ [dquote]) = ''178''"
    by code_simp
  have ex2: "updateFeetInchesFromCm ''178'' = ''5'' @ [apostrophe] @ ''10'' @ [dquote]"
    by code_simp
  from fwd updateFeetInchesFromCm_total ex1 ex2 show ?thesis by blast
qed

theorem C4_height_conversion_witness:
  "(5::nat) * 12 + 10 < 10 ^ 9 \<and> (178::nat) < 10 ^ 9
   \<and> updateCmFromFeetInches (show_nat 5 @ [apostrophe] @ show_nat 10 @ [dquote]) = show_nat 178
   \<and> updateFeetInchesFromCm (show_nat 178) = show_nat 5 @ [apostrophe] @ show_nat 10 @ [dquote]"
proof -
  have a: "(5::nat) * 12 + 10 < 10 ^ 9" and b: "(178::nat) < 10 ^ 9" by simp_all
  have r1: "round (of_nat (5 * 12 + 10) * 254 / 100 :: rat) = 178"
    unfolding round_def by (rule floor_unique) simp_all
  have r2: "round (of_nat 178 / (254 / 100) :: rat) = 70"
    unfolding round_def by (rule floor_unique) simp_all
  from C4_height_conversion [of 5 10 178] a b r1 r2 show ?thesis
    by (simp add: Let_def js_toString_def show_nat_5 show_nat_10 show_nat_178)
qed

subsection \<open>Weight conversion\<close>

lemma onLbsChange_total:
  assumes "lbs < 10 ^ 9"
  shows "onLbsChange (show_nat lbs) = js_toString (round (of_nat lbs * 453592 / 1000000 :: rat))"
proof -
  have n: "0 \<le> int lbs" "int lbs < 10 ^ 9" using assms by simp_all
  from round_mul_0_453592 [OF n] show ?thesis
    by (simp add: onLbsChange_def parseInt_show_nat js_or_Some_0 Let_def)
qed

lemma onKgChange_total:
  assumes "kg < 10 ^ 9"
  shows "onKgChange (show_nat kg) = js_toString (round (of_nat kg / (453592 / 1000000) :: rat))"
proof -
  have n: "0 \<le> int kg" "int kg < 10 ^ 9" using assms by simp_all
  from round_div_0_453592 [OF n] show ?thesis
    by (simp add: onKgChange_def parseInt_show_nat js_or_Some_0 Let_def)
qed

lemma weight_round_trip:
  assumes "lbs < 10 ^ 9"
  shows "\<exists>kg lbs'. onLbsChange (show_nat lbs) = show_nat kg
           \<and> onKgChange (show_nat kg) = show_nat lbs' \<and> \<bar>int lbs' - int lbs\<bar> \<le> 1"
proof -
  define L :: rat where "L = of_nat lbs"
  define K where "K = round (L * 453592 / 1000000)"
  define L' where "L' = round (of_int K / (453592 / 1000000) :: rat)"
  have L: "0 \<le> L" "L < 10 ^ 9"
    using assms unfolding L_def by simp (metis assms of_nat_less_iff of_nat_numeral of_nat_power)
  have K1: "of_int K \<le> L * 453592 / 1000000 + 1 / 2"
    unfolding K_def round_def by (rule of_int_floor_le)
  have K2: "L * 453592 / 1000000 + 1 / 2 < of_int K + 1"
    unfolding K_def round_def using floor_correct [of "L * 453592 / 1000000 + 1 / 2"] by simp
  have K: "0 \<le> K" "K < 10 ^ 9"
    unfolding K_def using L by (intro round_nonneg round_less_bound; simp)+
  have Kr: "(0::rat) \<le> of_int K" using K(1) by simp
  have L'1: "(of_int L' :: rat) \<le> of_int K / (453592 / 1000000) + 1 / 2"
    unfolding L'_def round_def by (rule of_int_floor_le)
  have L'2: "(of_int K :: rat) / (453592 / 1000000) + 1 / 2 < of_int L' + 1"
    unfolding L'_def round_def
    using floor_correct [of "of_int K / (453592 / 1000000) + 1 / 2 :: rat"] by simp
  have "0 \<le> L'"
    unfolding L'_def using Kr by (intro round_nonneg) simp
  have "(of_int L' :: rat) < L + 2" using L'1 K1 by (simp add: field_simps)
  then have "(of_int L' :: rat) < of_int (int lbs + 2)" by (simp add: L_def)
  then have up: "L' < int lbs + 2" by (simp only: of_int_less_iff)
  have "L - 2 < (of_int L' :: rat)" using L'2 K2 by (simp add: field_simps)
  then have "(of_int (int lbs - 2) :: rat) < of_int L'" by (simp add: L_def)
  then have lo: "int lbs - 2 < L'" by (simp only: of_int_less_iff)
  have kg: "nat K < 10 ^ 9" using K by simp
  have a: "onLbsChange (show_nat lbs) = show_nat (nat K)"
    using onLbsChange_total [OF assms] K(1) by (simp add: K_def L_def js_toString_nonneg)
  have b: "onKgChange (show_nat (nat K)) = show_nat (nat L')"
    using onKgChange_total [OF kg] K(1) \<open>0 \<le> L'\<close> by (simp add: L'_def js_toString_nonneg)
  have c: "\<bar>int (nat L') - int lbs\<bar> \<le> 1"
    using up lo \<open>0 \<le> L'\<close> by simp
  from a b c show ?thesis by blast
qed

text \<open>
  Claim C5. Editing the pounds field with the value \<open>lbs\<close> stores \<open>round (lbs * 0.453592)\<close>
  in the kilograms field, and editing the kilograms field with \<open>kg\<close> stores
  \<open>round (kg / 0.453592)\<close> in the pounds field (weights below \<open>10^9\<close>). Converting pounds
  to kilograms and back gives the original pounds or a value that differs by 1. 150 lbs
  give 68 kg, and 68 kg give 150 lbs.
\<close>

theorem C5_weight_conversion:
  fixes lbs kg :: nat
  shows
  "(lbs < 10 ^ 9 \<longrightarrow>
      onLbsChange (show_nat lbs) = js_toString (round (of_nat lbs * 453592 / 1000000 :: rat)))
   \<and> (kg < 10 ^ 9 \<longrightarrow>
      onKgChange (show_nat kg) = js_toString (round (of_nat kg / (453592 / 1000000) :: rat)))
   \<and> (lbs < 10 ^ 9 \<longrightarrow>
      (\<exists>kg' lbs'. onLbsChange (show_nat lbs) = show_nat kg'
           \<and> onKgChange (show_nat kg') = show_nat lbs' \<and> \<bar>int lbs' - int lbs\<bar> \<le> 1))
   \<and> onLbsChange ''150'' = ''68''
   \<and> onKgChange ''68'' = ''150''"
proof -
  have ex1: "onLbsChange ''150'' = ''68''" by code_simp
  have ex2: "onKgChange ''68'' = ''150''" by code_simp
  from onLbsChange_total onKgChange_total weight_round_trip ex1 ex2 show ?thesis by blast
qed

theorem C5_weight_conversion_witness:
  "(150::nat) < 10 ^ 9 \<and> (68::nat) < 10 ^ 9
   \<and> onLbsChange (show_nat 150) = show_nat 68
   \<and> onKgChange (show_nat 68) = show_nat 150"
proof -
  have a: "(150::nat) < 10 ^ 9" and b: "(68::nat) < 10 ^ 9" by simp_all
  have r1: "round (of_nat 150 * 453592 / 1000000 :: rat) = 68"
    unfolding round_def by (rule floor_unique) simp_all
  have r2: "round (of_nat 68 / (453592 / 1000000) :: rat) = 150"
    unfolding round_def by (rule floor_unique) simp_all
  from C5_weight_conversion [of 150 68] a b r1 r2 show ?thesis
    by (simp add: js_toString_def show_nat_150 show_nat_68)
qed

subsection \<open>The experience dialog\<close>

lemma adjustedXP_zero: "adjustedXP 0 b = 0"
  by (simp add: adjustedXP_def js_mul_def fl_zero Math_floor_def)

lemma xpAddCallback_eq:
  "xpAddCallback sys (js_toString gained) (js_toString bonus)
     = sys\<lparr>xp_value := xp_value sys + adjustedXP gained bonus, xp_modifier := bonus\<rparr>"
  by (simp add: xpAddCallback_def openXPDialog_currentXP_def parseInt_js_toString js_or_Some_0
        Let_def)

text \<open>The factor \<open>1 + bonus / 100\<close> is computed with two roundings; for a bonus from -20 to
  20 it is within \<open>2^-52\<close> of the exact factor.\<close>

lemma bonus_factor:
  assumes "- 20 \<le> b" and "b \<le> 20"
  shows "\<bar>js_add 1 (js_div (of_int b) 100) - (1 + of_int b / 100)\<bar> \<le> 1 / 2 ^ 52"
    and "4 / 5 - 1 / 2 ^ 52 \<le> js_add 1 (js_div (of_int b) 100)"
    and "js_add 1 (js_div (of_int b) 100) \<le> 6 / 5 + 1 / 2 ^ 52"
proof -
  define q :: rat where "q = of_int b / 100"
  define d where "d = fl q"
  define s where "s = fl (1 + d)"
  have "(of_int (- 20) :: rat) \<le> of_int b" "(of_int b :: rat) \<le> of_int 20"
    using assms by (simp_all only: of_int_le_iff)
  then have q: "- 1 / 5 \<le> q" "q \<le> 1 / 5" by (simp_all add: q_def)
  have dq: "\<bar>d - q\<bar> \<le> (1 / 5) / 2 ^ 53"
  proof (cases "q = 0")
    case True
    then show ?thesis by (simp add: d_def fl_def)
  next
    case False
    from fl_error [OF False] have "\<bar>d - q\<bar> \<le> \<bar>q\<bar> / 2 ^ 53" by (simp add: d_def)
    also have "\<dots> \<le> (1 / 5) / 2 ^ 53" using q by (simp add: abs_le_iff divide_right_mono)
    finally show ?thesis .
  qed
  have dq1: "d - q \<le> (1 / 5) / 2 ^ 53" and dq2: "q - d \<le> (1 / 5) / 2 ^ 53"
    using dq by linarith+
  have d: "4 / 5 - (1 / 5) / 2 ^ 53 \<le> 1 + d" "1 + d \<le> 6 / 5 + (1 / 5) / 2 ^ 53"
    using dq1 dq2 q by linarith+
  have dpos: "0 < 1 + d"
  proof -
    have "(0::rat) < 4 / 5 - (1 / 5) / 2 ^ 53" by simp
    with d(1) show ?thesis by linarith
  qed
  then have ne: "1 + d \<noteq> 0" by simp
  from fl_error [OF ne] have "\<bar>s - (1 + d)\<bar> \<le> \<bar>1 + d\<bar> / 2 ^ 53" by (simp add: s_def)
  also have "\<bar>1 + d\<bar> = 1 + d" using dpos by simp
  also have "(1 + d) / 2 ^ 53 \<le> (6 / 5 + (1 / 5) / 2 ^ 53) / 2 ^ 53"
    using d(2) by (intro divide_right_mono) simp_all
  finally have sd: "\<bar>s - (1 + d)\<bar> \<le> (6 / 5 + (1 / 5) / 2 ^ 53) / 2 ^ 53" .
  have sd1: "s - (1 + d) \<le> (6 / 5 + (1 / 5) / 2 ^ 53) / 2 ^ 53"
    and sd2: "(1 + d) - s \<le> (6 / 5 + (1 / 5) / 2 ^ 53) / 2 ^ 53"
    using sd by linarith+
  have s: "s = js_add 1 (js_div (of_int b) 100)"
    by (simp add: s_def d_def q_def js_add_def js_div_def)
  have c: "(6 / 5 + (1 / 5) / 2 ^ 53) / 2 ^ 53 + (1 / 5) / 2 ^ 53 \<le> (1 / 2 ^ 52 :: rat)"
    by simp
  have e1: "s - (1 + q) \<le> 1 / 2 ^ 52" using sd1 dq1 c by linarith
  have e2: "(1 + q) - s \<le> 1 / 2 ^ 52" using sd2 dq2 c by linarith
  show "\<bar>js_add 1 (js_div (of_int b) 100) - (1 + of_int b / 100)\<bar> \<le> 1 / 2 ^ 52"
    unfolding s [symmetric] q_def [symmetric] using e1 e2 by linarith
  show "4 / 5 - 1 / 2 ^ 52 \<le> js_add 1 (js_div (of_int b) 100)"
    unfolding s [symmetric] using e2 q by linarith
  show "js_add 1 (js_div (of_int b) 100) \<le> 6 / 5 + 1 / 2 ^ 52"
    unfolding s [symmetric] using e1 q by linarith
qed

text \<open>For a gain below \<open>10^9\<close> and a bonus from -20 to 20 the adjusted experience is the
  exact \<open>floor (gained * (100 + bonus) / 100)\<close> or one less, and it is the exact value
  whenever \<open>gained * (100 + bonus)\<close> is not a multiple of 100.\<close>

lemma adjustedXP_near_exact:
  assumes g: "0 \<le> g" "g < 10 ^ 9" and b: "- 20 \<le> b" "b \<le> 20"
  shows "g * (100 + b) div 100 - 1 \<le> adjustedXP g b"
    and "adjustedXP g b \<le> g * (100 + b) div 100"
    and "\<not> 100 dvd g * (100 + b) \<Longrightarrow> adjustedXP g b = g * (100 + b) div 100"
proof -
  define k where "k = g * (100 + b) div 100"
  define r where "r = g * (100 + b) mod 100"
  have goal: "k - 1 \<le> adjustedXP g b \<and> adjustedXP g b \<le> k \<and> (r \<noteq> 0 \<longrightarrow> adjustedXP g b = k)"
  proof (cases "g = 0")
    case True
    then show ?thesis by (simp add: adjustedXP_zero k_def r_def)
  next
    case False
    have G: "(1::rat) \<le> of_int g" "(of_int g :: rat) < 10 ^ 9"
      using rat_of_int_range [OF g(1) False g(2)] by blast+
    define s where "s = js_add 1 (js_div (of_int b) 100)"
    define q :: rat where "q = of_int b / 100"
    define x where "x = of_int g * s"
    define E :: rat where "E = of_int g * (1 + q)"
    note bf = bonus_factor [OF b, folded s_def q_def]
    have s1: "s - (1 + q) \<le> 1 / 2 ^ 52" and s2: "(1 + q) - s \<le> 1 / 2 ^ 52"
      using bf(1) by linarith+
    have r: "0 \<le> r" "r \<le> 99" by (simp_all add: r_def)
    have "g * (100 + b) = 100 * k + r" by (simp add: k_def r_def)
    then have "(of_int (g * (100 + b)) :: rat) = of_int (100 * k + r)" by (simp only:)
    then have E: "E = of_int k + of_int r / 100"
      by (simp add: E_def q_def field_simps)
    have r0: "(0::rat) \<le> of_int r / 100" using r(1) by simp
    have "(of_int r :: rat) \<le> of_int 99" using r(2) by (simp only: of_int_le_iff)
    then have r1: "(of_int r :: rat) / 100 \<le> 99 / 100" by simp
    have "x - E = of_int g * (s - (1 + q))" by (simp add: x_def E_def algebra_simps)
    moreover have "of_int g * (s - (1 + q)) \<le> of_int g * (1 / 2 ^ 52)"
      using s1 G(1) by (intro mult_left_mono) simp_all
    moreover have "of_int g * (1 / 2 ^ 52) \<le> (1 / 1000000 :: rat)" using G(2) by simp
    ultimately have x1: "x - E \<le> 1 / 1000000" by linarith
    have "E - x = of_int g * ((1 + q) - s)" by (simp add: x_def E_def algebra_simps)
    moreover have "of_int g * ((1 + q) - s) \<le> of_int g * (1 / 2 ^ 52)"
      using s2 G(1) by (intro mult_left_mono) simp_all
    moreover have "of_int g * (1 / 2 ^ 52) \<le> (1 / 1000000 :: rat)" using G(2) by simp
    ultimately have x2: "E - x \<le> 1 / 1000000" by linarith
    have spos: "1 / 2 \<le> s" using bf(2) by simp
    have sle: "s \<le> 2" using bf(3) by simp
    have xpos: "0 < x"
    proof -
      have "0 < of_int g * s" using G(1) spos by (intro mult_pos_pos) simp_all
      then show ?thesis by (simp add: x_def)
    qed
    have "x \<le> of_int g * 2" unfolding x_def using sle G(1) by (intro mult_left_mono) simp_all
    then have xub: "x < 2 * 10 ^ 9" using G(2) by simp
    then have xlt: "x < 2 ^ 52" by simp
    have t53: "x / 2 ^ 53 \<le> 1 / 1000000" using xub by simp
    have t54: "0 \<le> x / 2 ^ 54" using xpos by simp
    have up: "fl x < of_int (2 * (k + 1)) / 2"
      using xpos xlt
    proof (rule fl_less_half)
      show "x + x / 2 ^ 53 < of_int (2 * (k + 1)) / 2"
        using x1 E r1 t53 by simp
    qed
    have low: "of_int (2 * (k - 1)) / 2 \<le> fl x"
      using xpos xlt
    proof (rule fl_ge_half)
      show "of_int (2 * (k - 1)) / 2 < x + x / 2 ^ 54"
        using x2 E r0 t54 by simp
    qed
    have low': "of_int (2 * k) / 2 \<le> fl x" if "r \<noteq> 0"
      using xpos xlt
    proof (rule fl_ge_half)
      from that r(1) have "1 \<le> r" by simp
      then have "(of_int 1 :: rat) \<le> of_int r" by (simp only: of_int_le_iff)
      then have "(1 / 100 :: rat) \<le> of_int r / 100" by simp
      then show "of_int (2 * k) / 2 < x + x / 2 ^ 54"
        using x2 E t54 by simp
    qed
    have a: "adjustedXP g b = \<lfloor>fl x\<rfloor>"
      by (simp add: adjustedXP_def Math_floor_def js_mul_def x_def s_def)
    have "of_int (k - 1) \<le> fl x" using low by simp
    then have A: "k - 1 \<le> \<lfloor>fl x\<rfloor>" by (simp only: le_floor_iff)
    have "fl x < of_int (k + 1)" using up by simp
    then have "\<lfloor>fl x\<rfloor> < k + 1" by (simp only: floor_less_iff)
    then have B: "\<lfloor>fl x\<rfloor> \<le> k" by simp
    have C: "\<lfloor>fl x\<rfloor> = k" if "r \<noteq> 0"
    proof -
      have "of_int k \<le> fl x" using low' [OF that] by simp
      then have "k \<le> \<lfloor>fl x\<rfloor>" by (simp only: le_floor_iff)
      with B show ?thesis by simp
    qed
    from A B C show ?thesis by (simp add: a)
  qed
  show "g * (100 + b) div 100 - 1 \<le> adjustedXP g b"
    using goal by (simp add: k_def)
  show "adjustedXP g b \<le> g * (100 + b) div 100"
    using goal by (simp add: k_def)
  show "adjustedXP g b = g * (100 + b) div 100" if "\<not> 100 dvd g * (100 + b)"
    using goal that by (simp add: k_def r_def dvd_eq_mod_eq_0)
qed

text \<open>
  Claim C3. The add button of the experience dialog stores the current experience plus the
  adjusted experience, and the entered bonus. The adjusted experience is computed in
  double precision: for 100 gained and a bonus of 15 it is 114, while
  \<open>floor (100 * (1 + 15/100))\<close> is 115, so an adventurer with 250 experience ends with 364.
  For 100 gained and a bonus of 10 it is 110, and for 0 gained it is 0 with any bonus.
\<close>

theorem C3_xp_dialog_failing_input:
  "xpAddCallback sys (js_toString gained) (js_toString bonus)
     = sys\<lparr>xp_value := xp_value sys + adjustedXP gained bonus, xp_modifier := bonus\<rparr>
   \<and> adjustedXP 100 15 = 114
   \<and> \<lfloor>(100::rat) * (1 + 15 / 100)\<rfloor> = 115
   \<and> xp_value (xpAddCallback example_adventurer ''100'' ''15'') = 364
   \<and> xp_modifier (xpAddCallback example_adventurer ''100'' ''15'') = 15
   \<and> adjustedXP 100 10 = 110
   \<and> adjustedXP 0 bonus = 0"
proof -
  have a: "adjustedXP 100 15 = 114" by code_simp
  have b: "\<lfloor>(100::rat) * (1 + 15 / 100)\<rfloor> = 115" by simp
  have s: "js_toString 100 = ''100''" "js_toString 15 = ''15''"
    by (simp_all add: js_toString_def show_nat.simps digit_char_def)
  have c: "xpAddCallback example_adventurer ''100'' ''15''
             = example_adventurer\<lparr>xp_value := 250 + adjustedXP 100 15, xp_modifier := 15\<rparr>"
    using xpAddCallback_eq [of example_adventurer 100 15]
    by (simp add: s example_adventurer_def)
  have d: "adjustedXP 100 10 = 110" by code_simp
  from a b c d adjustedXP_zero xpAddCallback_eq show ?thesis by simp
qed

end
